theory Spec2Isabelle
  imports
    Complex_Main
    "HOL-Library.AList"
    "HOL-Library.Char_ord"
    "HOL-Library.List_Lexorder"
    "HOL-Library.Product_Lexorder"
begin

section \<open>Data frames\<close>

text \<open>
  The program \<^verbatim>\<open>appDataViz.py\<close> reads a spreadsheet into a pandas data frame and
  derives the tables of its views from it.  A cell of a frame is a text, a number, or
  the missing value \<open>NaN\<close> (an empty spreadsheet cell; pandas' \<^verbatim>\<open>notna\<close> is false exactly
  there).  Numbers are exact rationals, extended by the two infinities that a
  floating-point division by zero produces: rounding is not modelled.
\<close>

datatype cell = Str string | Num rat | PInf | NInf | NaN

text \<open>
  The exceptions the program can raise.  \<open>ReadError\<close> stands for whatever
  \<^verbatim>\<open>pd.read_excel\<close> raises.  \<open>UnmodelledOrder\<close> is not an exception: it marks the one
  input of \<^verbatim>\<open>sorted\<close> whose result depends on the comparison sequence of Python's
  sorting algorithm (numbers mixed with \<open>NaN\<close>) and which the model does not predict.
\<close>

datatype error =
  KeyError string | TypeError | ZeroDivisionError | IndexError | ValueError | AttributeError
  | ReadError | UnmodelledOrder

definition and_then :: "error + 'a \<Rightarrow> ('a \<Rightarrow> error + 'b) \<Rightarrow> error + 'b" where
  "and_then r f = (case r of Inl e \<Rightarrow> Inl e | Inr x \<Rightarrow> f x)"

primrec sequence :: "(error + 'a) list \<Rightarrow> error + 'a list" where
  "sequence [] = Inr []"
| "sequence (r # rs) = and_then r (\<lambda>x. and_then (sequence rs) (\<lambda>xs. Inr (x # xs)))"

text \<open>
  A frame has its column labels in order and its rows; a row gives each column's cell.
  The row labels (the index) play no part in the program and are left out.
\<close>

type_synonym row = "(string \<times> cell) list"

record table =
  columns :: "string list"
  rows :: "row list"

definition wf_table :: "table \<Rightarrow> bool" where
  "wf_table df = (distinct (columns df) \<and> list_all (\<lambda>r. map fst r = columns df) (rows df))"

definition cell_of :: "row \<Rightarrow> string \<Rightarrow> cell" where
  "cell_of r c = (case map_of r c of Some v \<Rightarrow> v | None \<Rightarrow> NaN)"

text \<open>\<^verbatim>\<open>df[c]\<close>: the column as a series, or \<^verbatim>\<open>KeyError\<close>.\<close>

definition getitem :: "table \<Rightarrow> string \<Rightarrow> error + cell list" where
  "getitem df c =
     (if c \<in> set (columns df) then Inr (map (\<lambda>r. cell_of r c) (rows df)) else Inl (KeyError c))"

text \<open>\<^verbatim>\<open>series == v\<close>, elementwise: \<open>NaN\<close> equals nothing.\<close>

definition cell_eq :: "cell \<Rightarrow> cell \<Rightarrow> bool" where
  "cell_eq a b = (a = b \<and> a \<noteq> NaN)"

definition eq_scalar :: "cell list \<Rightarrow> cell \<Rightarrow> bool list" where
  "eq_scalar s v = map (\<lambda>c. cell_eq c v) s"

definition notna :: "cell list \<Rightarrow> bool list" where
  "notna s = map (\<lambda>c. c \<noteq> NaN) s"

definition isin :: "cell list \<Rightarrow> cell list \<Rightarrow> bool list" where
  "isin s vs = map (\<lambda>c. c \<in> set vs) s"

definition mask_and :: "bool list \<Rightarrow> bool list \<Rightarrow> bool list" where
  "mask_and a b = map2 (\<and>) a b"

text \<open>\<^verbatim>\<open>df[mask]\<close>: the rows where the boolean series is true, as a new frame.\<close>

definition getitem_mask :: "table \<Rightarrow> bool list \<Rightarrow> table" where
  "getitem_mask df keep = df\<lparr>rows := map fst (filter snd (zip (rows df) keep))\<rparr>"

text \<open>
  \<^verbatim>\<open>df[c] = series\<close>: an existing column is overwritten in place, a new one is appended
  last.
\<close>

definition setitem :: "table \<Rightarrow> string \<Rightarrow> cell list \<Rightarrow> table" where
  "setitem df c s =
     \<lparr>columns = (if c \<in> set (columns df) then columns df else columns df @ [c]),
      rows = map2 (\<lambda>r v. AList.update c v r) (rows df) s\<rparr>"

subsection \<open>Arithmetic on cells\<close>

text \<open>
  Numbers are exact rationals: where the code rounds a quotient, a sum or a mean to
  \<^verbatim>\<open>float64\<close>, the model keeps the exact value.

  A column read from a sheet is numeric (dtype \<^verbatim>\<open>int64\<close> or \<^verbatim>\<open>float64\<close>) when it holds
  numbers and empty cells only.  The division of two numeric columns is IEEE division: a
  zero divisor gives an infinity or \<open>NaN\<close> and raises nothing.
\<close>

fun truediv :: "cell \<Rightarrow> cell \<Rightarrow> error + cell" where
  "truediv (Str a) y = Inl TypeError"
| "truediv x (Str b) = Inl TypeError"
| "truediv NaN y = Inr NaN"
| "truediv x NaN = Inr NaN"
| "truediv (Num a) (Num b) =
     Inr (if b \<noteq> 0 then Num (a / b) else if 0 < a then PInf else if a < 0 then NInf else NaN)"
| "truediv (Num a) y = Inr (Num 0)"
| "truediv PInf (Num b) = Inr (if 0 \<le> b then PInf else NInf)"
| "truediv NInf (Num b) = Inr (if 0 \<le> b then NInf else PInf)"
| "truediv x y = Inr NaN"

fun cell_add :: "cell \<Rightarrow> cell \<Rightarrow> error + cell" where
  "cell_add (Str a) y = Inl TypeError"
| "cell_add x (Str b) = Inl TypeError"
| "cell_add NaN y = Inr NaN"
| "cell_add x NaN = Inr NaN"
| "cell_add (Num a) (Num b) = Inr (Num (a + b))"
| "cell_add PInf NInf = Inr NaN"
| "cell_add NInf PInf = Inr NaN"
| "cell_add (Num a) y = Inr y"
| "cell_add x y = Inr x"

text \<open>
  A column that holds a text anywhere has dtype \<^verbatim>\<open>object\<close>.  When one of the operands is
  such a column, pandas applies Python's own \<^verbatim>\<open>/\<close> to the cells in order: a text operand
  raises \<^verbatim>\<open>TypeError\<close> and a zero divisor raises \<^verbatim>\<open>ZeroDivisionError\<close>.
\<close>

fun py_truediv :: "cell \<Rightarrow> cell \<Rightarrow> error + cell" where
  "py_truediv (Str a) y = Inl TypeError"
| "py_truediv x (Str b) = Inl TypeError"
| "py_truediv x (Num b) = (if b = 0 then Inl ZeroDivisionError else truediv x (Num b))"
| "py_truediv x y = truediv x y"

text \<open>
  \<^verbatim>\<open>a / b\<close> on two series; \<open>numeric\<close> says that both are of a numeric dtype.  Otherwise
  the first cell that fails decides: a \<^verbatim>\<open>ZeroDivisionError\<close> is raised as it is, and after a
  \<^verbatim>\<open>TypeError\<close> pandas tries once more on the pairs in which nothing is missing and
  leaves \<open>NaN\<close> in the others.
\<close>

definition series_truediv :: "bool \<Rightarrow> cell list \<Rightarrow> cell list \<Rightarrow> error + cell list" where
  "series_truediv numeric a b =
     (if numeric then sequence (map2 truediv a b)
      else case sequence (map2 py_truediv a b) of
             Inl TypeError \<Rightarrow>
               sequence (map2 (\<lambda>x y. if x = NaN \<or> y = NaN then Inr NaN else py_truediv x y) a b)
           | r \<Rightarrow> r)"

subsection \<open>Comparing cells\<close>

definition is_text :: "cell \<Rightarrow> bool" where
  "is_text c = (case c of Str s \<Rightarrow> True | _ \<Rightarrow> False)"

definition is_number :: "cell \<Rightarrow> bool" where
  "is_number c = (case c of Num q \<Rightarrow> True | PInf \<Rightarrow> True | NInf \<Rightarrow> True | _ \<Rightarrow> False)"

text \<open>\<open>a <= b\<close> on floats: false whenever \<open>NaN\<close> is involved.\<close>

fun cell_le :: "cell \<Rightarrow> cell \<Rightarrow> bool" where
  "cell_le (Num a) (Num b) = (a \<le> b)"
| "cell_le NInf b = is_number b"
| "cell_le a PInf = is_number a"
| "cell_le a b = False"

definition cell_ge :: "cell \<Rightarrow> cell \<Rightarrow> bool" where
  "cell_ge a b = cell_le b a"

text \<open>Python's \<open>a < b\<close> on two texts or on two floats.\<close>

fun py_lt :: "cell \<Rightarrow> cell \<Rightarrow> bool" where
  "py_lt (Str a) (Str b) = (a < b)"
| "py_lt a b = (cell_le a b \<and> a \<noteq> b)"

section \<open>The derived table of Senior High School rows\<close>

abbreviation "LEVEL \<equiv> ''Level''"
abbreviation "SCHOOL_YEAR \<equiv> ''School Year''"
abbreviation "REGION \<equiv> ''Region''"
abbreviation "SECTOR \<equiv> ''Sector''"
abbreviation "TOTAL_ENROLLMENT \<equiv> ''Total Enrollment''"
abbreviation "TOTAL_INFRA \<equiv> ''Total Infrastructure''"
abbreviation "LEARNERS_PER_INFRA \<equiv> ''Learners per Infra''"
abbreviation "SHS \<equiv> ''Senior High School''"

text \<open>
  The dtype of a column: numeric when no cell of it is a text.  Selecting rows keeps the
  dtype, so the columns of \<^verbatim>\<open>df[mask]\<close> have the dtypes of the columns of \<^verbatim>\<open>df\<close>.
\<close>

definition numeric_column :: "table \<Rightarrow> string \<Rightarrow> bool" where
  "numeric_column df c = list_all (\<lambda>r. \<not> is_text (cell_of r c)) (rows df)"

text \<open>
  \<^verbatim>\<open>
  def compute_shs(df):
      shs = df[(df["Level"] == "Senior High School") &
               df["Total Infrastructure"].notna()].copy()
      shs["Learners per Infra"] = (
          shs["Total Enrollment"] / shs["Total Infrastructure"]
      )
      return shs
  \<close>
\<close>

definition compute_shs :: "table \<Rightarrow> error + table" where
  "compute_shs df =
     and_then (getitem df LEVEL) (\<lambda>level.
     and_then (getitem df TOTAL_INFRA) (\<lambda>infra.
       let shs = getitem_mask df (mask_and (eq_scalar level (Str SHS)) (notna infra)) in
       and_then (getitem shs TOTAL_ENROLLMENT) (\<lambda>enrollment.
       and_then (getitem shs TOTAL_INFRA) (\<lambda>infra'.
       and_then (series_truediv
                   (numeric_column df TOTAL_ENROLLMENT \<and> numeric_column df TOTAL_INFRA)
                   enrollment infra') (\<lambda>ratio.
         Inr (setitem shs LEARNERS_PER_INFRA ratio))))))"

text \<open>The rows the filter keeps.\<close>

definition is_shs_row :: "row \<Rightarrow> bool" where
  "is_shs_row r = (cell_eq (cell_of r LEVEL) (Str SHS) \<and> cell_of r TOTAL_INFRA \<noteq> NaN)"

section \<open>The ordered school years\<close>

text \<open>\<^verbatim>\<open>series.unique()\<close>: the distinct values in order of first appearance.\<close>

fun unique :: "'a list \<Rightarrow> 'a list" where
  "unique [] = []"
| "unique (x # xs) = x # unique (filter (\<lambda>y. y \<noteq> x) xs)"

text \<open>
  The order of values of one kind: numbers by size, texts lexicographically by character
  code, as Python compares them.  Across kinds the key puts numbers before texts; Python
  itself refuses to compare a text with a number.
\<close>

definition cell_key :: "cell \<Rightarrow> nat \<times> rat \<times> string" where
  "cell_key c =
     (case c of NInf \<Rightarrow> (0, 0, []) | Num q \<Rightarrow> (1, q, []) | PInf \<Rightarrow> (2, 0, [])
      | Str s \<Rightarrow> (3, 0, s) | NaN \<Rightarrow> (4, 0, []))"

text \<open>
  \<^verbatim>\<open>sorted(xs)\<close>.  Comparing a text with a number (\<open>NaN\<close> is a float) raises
  \<^verbatim>\<open>TypeError\<close>.  Every comparison with \<open>NaN\<close> is false, so for numbers mixed with
  \<open>NaN\<close> the result depends on which comparisons the algorithm makes.
\<close>

definition py_sorted :: "cell list \<Rightarrow> error + cell list" where
  "py_sorted xs =
     (if list_ex is_text xs \<and> list_ex (\<lambda>x. \<not> is_text x) xs then Inl TypeError
      else if NaN \<in> set xs \<and> 1 < length xs then Inl UnmodelledOrder
      else Inr (sort_key cell_key xs))"

text \<open>
  \<^verbatim>\<open>
  def get_year_order(df):
      # Keep original string order as in data, but sorted for consistency
      years = sorted(df["School Year"].unique())
      return years
  \<close>
\<close>

definition get_year_order :: "table \<Rightarrow> error + cell list" where
  "get_year_order df = and_then (getitem df SCHOOL_YEAR) (\<lambda>s. py_sorted (unique s))"

section \<open>Grouping and aggregation\<close>

datatype agg = AggSum | AggMean

fun sum_from :: "cell \<Rightarrow> cell list \<Rightarrow> error + cell" where
  "sum_from acc [] = Inr acc"
| "sum_from acc (x # xs) = and_then (cell_add acc x) (\<lambda>acc'. sum_from acc' xs)"

text \<open>
  The aggregations of a group skip missing values: the sum of none is 0, the mean of
  none is \<open>NaN\<close>.
\<close>

definition aggregate :: "agg \<Rightarrow> cell list \<Rightarrow> error + cell" where
  "aggregate f s =
     (let xs = filter (\<lambda>c. c \<noteq> NaN) s in
      case f of
        AggSum \<Rightarrow> sum_from (Num 0) xs
      | AggMean \<Rightarrow>
          if xs = [] then Inr NaN
          else and_then (sum_from (Num 0) xs) (\<lambda>t. truediv t (Num (of_nat (length xs)))))"

definition key_of :: "string list \<Rightarrow> row \<Rightarrow> cell list" where
  "key_of ks r = map (cell_of r) ks"

text \<open>
  \<^verbatim>\<open>df.groupby(ks)\<close>: the groups are the distinct keys in ascending order; a row with a
  missing key belongs to no group (\<^verbatim>\<open>dropna=True\<close>).
\<close>

definition group_keys :: "string list \<Rightarrow> table \<Rightarrow> cell list list" where
  "group_keys ks df =
     sort_key (map cell_key)
       (unique (filter (\<lambda>k. NaN \<notin> set k) (map (key_of ks) (rows df))))"

definition group_rows :: "string list \<Rightarrow> table \<Rightarrow> cell list \<Rightarrow> row list" where
  "group_rows ks df k = filter (\<lambda>r. key_of ks r = k) (rows df)"

definition group_row ::
    "string list \<Rightarrow> (string \<times> string \<times> agg) list \<Rightarrow> table \<Rightarrow> cell list \<Rightarrow> error + row" where
  "group_row ks specs df k =
     and_then
       (sequence (map (\<lambda>(out, src, f).
          and_then (aggregate f (map (\<lambda>r. cell_of r src) (group_rows ks df k)))
            (\<lambda>v. Inr (out, v))) specs))
       (\<lambda>vs. Inr (zip ks k @ vs))"

text \<open>
  \<^verbatim>\<open>df.groupby(ks).agg(out=(src, f), ...).reset_index()\<close>, and, with one \<open>(src, src, f)\<close>,
  \<^verbatim>\<open>df.groupby(ks)[src].f().reset_index()\<close>: one row per group, the key columns first.
\<close>

definition groupby_agg ::
    "string list \<Rightarrow> (string \<times> string \<times> agg) list \<Rightarrow> table \<Rightarrow> error + table" where
  "groupby_agg ks specs df =
     (case filter (\<lambda>c. c \<notin> set (columns df)) (ks @ map (\<lambda>(out, src, f). src) specs) of
        c # cs \<Rightarrow> Inl (KeyError c)
      | [] \<Rightarrow>
          and_then (sequence (map (group_row ks specs df) (group_keys ks df)))
            (\<lambda>rs. Inr \<lparr>columns = ks @ map fst specs, rows = rs\<rparr>))"

text \<open>
  \<^verbatim>\<open>.sort_values(ascending=False)\<close> on the column \<open>c\<close>: descending, missing values last.
  pandas sorts with an unstable algorithm, so the order among equal values is not fixed
  by the program; the model keeps them in their previous order.
\<close>

definition desc_key :: "cell \<Rightarrow> nat \<times> rat" where
  "desc_key c =
     (case c of PInf \<Rightarrow> (0, 0) | Num q \<Rightarrow> (1, - q) | NInf \<Rightarrow> (2, 0) | NaN \<Rightarrow> (3, 0)
      | Str s \<Rightarrow> (4, 0))"

definition sort_values_desc :: "string \<Rightarrow> table \<Rightarrow> table" where
  "sort_values_desc c df = df\<lparr>rows := sort_key (\<lambda>r. desc_key (cell_of r c)) (rows df)\<rparr>"

section \<open>The tables of the views\<close>

text \<open>
  \<^verbatim>\<open>
  nat_shs = shs.groupby("School Year").agg(
      total_enrollment=("Total Enrollment", "sum"),
      total_infra=("Total Infrastructure", "sum")
  ).reset_index()
  \<close>
\<close>

definition nat_shs :: "table \<Rightarrow> error + table" where
  "nat_shs shs =
     groupby_agg [SCHOOL_YEAR]
       [(''total_enrollment'', TOTAL_ENROLLMENT, AggSum), (''total_infra'', TOTAL_INFRA, AggSum)]
       shs"

definition focus_regions :: "(string \<times> string) list" where
  "focus_regions =
     [(''NCR - National Capital Region'', ''NCR''),
      (''Region IV-A - CALABARZON'', ''CALABARZON''),
      (''Region III - Central Luzon'', ''Central Luzon''),
      (''Region XI - Davao Region'', ''Davao''),
      (''Region X - Northern Mindanao'', ''Northern Mindanao'')]"

text \<open>\<^verbatim>\<open>series.map(focus_regions)\<close>: a value that is no key maps to \<open>NaN\<close>.\<close>

definition map_region :: "cell \<Rightarrow> cell" where
  "map_region c =
     (case c of
        Str s \<Rightarrow> (case map_of focus_regions s of Some v \<Rightarrow> Str v | None \<Rightarrow> NaN)
      | _ \<Rightarrow> NaN)"

abbreviation "REGION_SHORT \<equiv> ''Region Short''"

text \<open>
  \<^verbatim>\<open>
  shs_focus = shs[shs["Region"].isin(focus_regions.keys())].copy()
  shs_focus["Region Short"] = shs_focus["Region"].map(focus_regions)
  region_year_ratio = (
      shs_focus.groupby(["School Year", "Region Short"])["Learners per Infra"]
      .mean()
      .reset_index()
  )
  \<close>
\<close>

definition region_year_ratio :: "table \<Rightarrow> error + table" where
  "region_year_ratio shs =
     and_then (getitem shs REGION) (\<lambda>region.
       let shs_focus = getitem_mask shs (isin region (map (\<lambda>(k, v). Str k) focus_regions)) in
       and_then (getitem shs_focus REGION) (\<lambda>region'.
         groupby_agg [SCHOOL_YEAR, REGION_SHORT]
           [(LEARNERS_PER_INFRA, LEARNERS_PER_INFRA, AggMean)]
           (setitem shs_focus REGION_SHORT (map map_region region'))))"

text \<open>
  \<^verbatim>\<open>
  compare_years = [year_a, year_b]
  shs_sector = shs[
      (shs["Region"].isin(focus_regions.keys())) &
      (shs["School Year"].isin(compare_years)) &
      (shs["Sector"].isin(["PUBLIC", "PRIVATE"]))
  ].copy()
  sector_summary = (
      shs_sector.groupby(["Region", "School Year", "Sector"])["Total Enrollment"]
      .sum()
      .reset_index()
  )
  sector_summary["Region Short"] = sector_summary["Region"].map(focus_regions)
  \<close>
\<close>

definition sector_summary :: "table \<Rightarrow> cell list \<Rightarrow> error + table" where
  "sector_summary shs compare_years =
     and_then (getitem shs REGION) (\<lambda>region.
     and_then (getitem shs SCHOOL_YEAR) (\<lambda>year.
     and_then (getitem shs SECTOR) (\<lambda>sector.
       let shs_sector = getitem_mask shs
             (mask_and (mask_and (isin region (map (\<lambda>(k, v). Str k) focus_regions))
                (isin year compare_years)) (isin sector [Str ''PUBLIC'', Str ''PRIVATE''])) in
       and_then (groupby_agg [REGION, SCHOOL_YEAR, SECTOR]
                   [(TOTAL_ENROLLMENT, TOTAL_ENROLLMENT, AggSum)] shs_sector) (\<lambda>summary.
       and_then (getitem summary REGION) (\<lambda>region'.
         Inr (setitem summary REGION_SHORT (map map_region region')))))))"

text \<open>
  \<^verbatim>\<open>
  shs_year = shs[shs["School Year"] == selected_year_for_ranking].copy()
  ranking = (
      shs_year.groupby("Region")["Learners per Infra"]
      .mean()
      .sort_values(ascending=False)
      .reset_index()
  )
  \<close>
\<close>

definition ranking :: "table \<Rightarrow> cell \<Rightarrow> error + table" where
  "ranking shs selected_year_for_ranking =
     and_then (getitem shs SCHOOL_YEAR) (\<lambda>year.
       let shs_year = getitem_mask shs (eq_scalar year selected_year_for_ranking) in
       and_then (groupby_agg [REGION] [(LEARNERS_PER_INFRA, LEARNERS_PER_INFRA, AggMean)] shs_year)
         (\<lambda>means. Inr (sort_values_desc LEARNERS_PER_INFRA means)))"

section \<open>Loading the spreadsheet\<close>

text \<open>
  What \<^verbatim>\<open>pd.read_excel\<close> returns is not the program's doing: the parser is a parameter
  of the model, from the source to read to an exception or the parsed sheet.  A parsed
  sheet has a label per column (a text, or a number or date when the header cell holds
  one) and rows of as many cells.
\<close>

datatype 'f source = Uploaded 'f | Path string

record raw_table =
  header :: "cell list"
  body :: "cell list list"

text \<open>
  \<^verbatim>\<open>str.strip()\<close> removes white space at both ends.  The characters of the model are
  bytes: the white space of ASCII is covered, the further white space of Unicode is not.
\<close>

definition is_space :: "char \<Rightarrow> bool" where
  "is_space c = (of_char c \<in> {9, 10, 11, 12, 13, 28, 29, 30, 31, 32 :: nat})"

definition strip :: "string \<Rightarrow> string" where
  "strip s = rev (dropWhile is_space (rev (dropWhile is_space s)))"

definition strip_label :: "cell \<Rightarrow> error + string" where
  "strip_label c = (case c of Str s \<Rightarrow> Inr (strip s) | _ \<Rightarrow> Inl AttributeError)"

text \<open>
  \<^verbatim>\<open>
  @st.cache_data
  def load_data(uploaded_file=None, default_path=None):
      if uploaded_file is not None:
          df = pd.read_excel(uploaded_file)
      else:
          df = pd.read_excel(default_path)

      # Standardise column names
      df.columns = [c.strip() for c in df.columns]
      return df
  \<close>
  The cache only saves recomputation and is left out.
\<close>

definition load_data ::
    "('f source \<Rightarrow> error + raw_table) \<Rightarrow> 'f option \<Rightarrow> string \<Rightarrow> error + table" where
  "load_data read_excel uploaded_file default_path =
     and_then
       (case uploaded_file of
          Some f \<Rightarrow> read_excel (Uploaded f)
        | None \<Rightarrow> read_excel (Path default_path))
       (\<lambda>raw.
     and_then (sequence (map strip_label (header raw))) (\<lambda>cols.
       Inr \<lparr>columns = cols, rows = map (zip cols) (body raw)\<rparr>))"

section \<open>The script\<close>

text \<open>\<^verbatim>\<open>xs[i]\<close> for a Python list: a negative index counts from the end.\<close>

definition py_getitem :: "'a list \<Rightarrow> int \<Rightarrow> error + 'a" where
  "py_getitem xs i =
     (let j = (if i < 0 then i + int (length xs) else i) in
      if j < 0 \<or> int (length xs) \<le> j then Inl IndexError else Inr (xs ! nat j))"

text \<open>\<^verbatim>\<open>xs.index(x)\<close>: the first position of \<open>x\<close>.\<close>

fun py_index :: "'a list \<Rightarrow> 'a \<Rightarrow> error + nat" where
  "py_index [] x = Inl ValueError"
| "py_index (y # ys) x = (if y = x then Inr 0 else and_then (py_index ys x) (\<lambda>i. Inr (Suc i)))"

text \<open>
  What the user does in a run of the script: the file uploaded (if any) and, for each
  of the three year selectors, the position picked (if any; otherwise the selector
  shows its default position).
\<close>

record 'f ui =
  uploaded :: "'f option"
  ranking_pick :: "nat option"
  year_a_pick :: "nat option"
  year_b_pick :: "nat option"

definition selectbox :: "'a list \<Rightarrow> nat \<Rightarrow> nat option \<Rightarrow> 'a" where
  "selectbox options index pick =
     options ! (case pick of Some i \<Rightarrow> if i < length options then i else index | None \<Rightarrow> index)"

record views =
  view_nat_shs :: table
  view_region_year_ratio :: table
  view_sector_summary :: table
  view_ranking :: table
  view_raw :: table

text \<open>
  A run of the script ends in one of three ways: stopped by \<^verbatim>\<open>st.stop()\<close> after the
  message of \<^verbatim>\<open>st.error\<close>, aborted by an exception nobody catches, or with all views
  rendered.
\<close>

datatype outcome = Stopped string | Raised error | Rendered views

definition default_path :: string where
  "default_path = ''Education Dataset (1).xlsx''"

text \<open>The source \<^verbatim>\<open>load_data\<close> reads in a run: the uploaded file, else the default path.\<close>

definition source_of :: "'f ui \<Rightarrow> 'f source" where
  "source_of u = (case uploaded u of Some f \<Rightarrow> Uploaded f | None \<Rightarrow> Path default_path)"

definition load_error_message :: string where
  "load_error_message = ''Error loading dataset. Check file name/path or upload the file.''"

text \<open>
  The script after the data is loaded (lines 58 to 272), without the calls that only
  draw.  The selectors come after \<^verbatim>\<open>years[0]\<close> and \<^verbatim>\<open>years[-1]\<close>, so they see a list
  that is not empty.
\<close>

definition views_of :: "table \<Rightarrow> 'f ui \<Rightarrow> error + views" where
  "views_of df u =
     and_then (get_year_order df) (\<lambda>years.
     and_then (py_getitem years 0) (\<lambda>min_year.
     and_then (py_getitem years (- 1)) (\<lambda>max_year.
     and_then (py_index years max_year) (\<lambda>i.
       let selected_year_for_ranking = selectbox years i (ranking_pick u) in
     and_then (compute_shs df) (\<lambda>shs.
     and_then (nat_shs shs) (\<lambda>nat.
     and_then (region_year_ratio shs) (\<lambda>ratio.
       let year_a = selectbox years 0 (year_a_pick u);
           year_b = selectbox years (length years - 1) (year_b_pick u) in
     and_then (sector_summary shs [year_a, year_b]) (\<lambda>sector.
     and_then (ranking shs selected_year_for_ranking) (\<lambda>rank.
       Inr \<lparr>view_nat_shs = nat, view_region_year_ratio = ratio, view_sector_summary = sector,
            view_ranking = rank, view_raw = shs\<rparr>)))))))))"

text \<open>
  \<^verbatim>\<open>
  try:
      df = load_data(uploaded_file=uploaded, default_path=default_path)
  except Exception:
      st.error("Error loading dataset. Check file name/path or upload the file.")
      st.stop()
  \<close>
\<close>

definition script :: "('f source \<Rightarrow> error + raw_table) \<Rightarrow> 'f ui \<Rightarrow> outcome" where
  "script read_excel u =
     (case load_data read_excel (uploaded u) default_path of
        Inl e \<Rightarrow> Stopped load_error_message
      | Inr df \<Rightarrow> (case views_of df u of Inl e \<Rightarrow> Raised e | Inr v \<Rightarrow> Rendered v))"

section \<open>Frames as objects\<close>

text \<open>
  pandas frames are mutable objects.  To say what \<^verbatim>\<open>compute_shs\<close> does to the frame it
  is given, the frames live in a store and are named by their position in it.
  \<^verbatim>\<open>df[mask]\<close> and \<^verbatim>\<open>.copy()\<close> each make a new frame; \<^verbatim>\<open>shs[c] = ...\<close> changes the frame
  \<open>shs\<close> names.
\<close>

type_synonym store = "table list"

definition alloc :: "store \<Rightarrow> table \<Rightarrow> nat \<times> store" where
  "alloc h t = (length h, h @ [t])"

definition compute_shs_store :: "store \<Rightarrow> nat \<Rightarrow> (error + nat) \<times> store" where
  "compute_shs_store h df =
     (case and_then (getitem (h ! df) LEVEL) (\<lambda>level.
           and_then (getitem (h ! df) TOTAL_INFRA) (\<lambda>infra.
             Inr (mask_and (eq_scalar level (Str SHS)) (notna infra)))) of
        Inl e \<Rightarrow> (Inl e, h)
      | Inr keep \<Rightarrow>
          let (tmp, h1) = alloc h (getitem_mask (h ! df) keep);
              (shs, h2) = alloc h1 (h1 ! tmp) in
          (case and_then (getitem (h2 ! shs) TOTAL_ENROLLMENT) (\<lambda>enrollment.
                and_then (getitem (h2 ! shs) TOTAL_INFRA) (\<lambda>infra'.
                  series_truediv
                    (numeric_column (h ! df) TOTAL_ENROLLMENT \<and>
                     numeric_column (h ! df) TOTAL_INFRA)
                    enrollment infra')) of
             Inl e \<Rightarrow> (Inl e, h2)
           | Inr ratio \<Rightarrow> (Inr shs, h2[shs := setitem (h2 ! shs) LEARNERS_PER_INFRA ratio])))"

section \<open>Notions used in the statements\<close>

text \<open>
  A cell of a numeric column read from a sheet is a number or missing; in a sum that
  skips missing values it counts as \<open>num_of\<close>.
\<close>

definition finite_or_missing :: "cell \<Rightarrow> bool" where
  "finite_or_missing c = (case c of Num q \<Rightarrow> True | NaN \<Rightarrow> True | _ \<Rightarrow> False)"

definition num_of :: "cell \<Rightarrow> rat" where
  "num_of c = (case c of Num q \<Rightarrow> q | _ \<Rightarrow> 0)"



text \<open>
  The School Year values of a table, and the tables whose School Year column exists and
  holds values of one kind with none missing: all texts, or all numbers.
\<close>

definition year_values :: "table \<Rightarrow> cell list" where
  "year_values df = map (\<lambda>r. cell_of r SCHOOL_YEAR) (rows df)"

definition uniform_years :: "table \<Rightarrow> bool" where
  "uniform_years df =
     (SCHOOL_YEAR \<in> set (columns df) \<and>
      (list_all is_text (year_values df) \<or> list_all is_number (year_values df)))"

text \<open>
  The values \<open>ranking\<close> takes the mean of for a year and a region: Learners per Infra in
  the rows of that year and region.
\<close>

definition group_ratios :: "table \<Rightarrow> cell \<Rightarrow> cell \<Rightarrow> cell list" where
  "group_ratios shs y g =
     map (\<lambda>r. cell_of r LEARNERS_PER_INFRA)
       (filter (\<lambda>r. cell_eq (cell_of r SCHOOL_YEAR) y \<and> cell_of r REGION = g) (rows shs))"

section \<open>Example sheets\<close>

text \<open>
  A sheet with the six columns of the data set: two Senior High School rows of one
  region in two years, a Junior High School row, a row whose infrastructure count is
  missing, and a row whose infrastructure count is zero.  With it the table
  \<open>compute_shs\<close> makes of it, the frame the filter alone makes of it, its yearly totals
  and its ranking for 2022, the store that holds it, and the same sheet with its rows in
  the opposite order.
\<close>

definition enrollment_row :: "cell \<Rightarrow> cell \<Rightarrow> cell \<Rightarrow> cell \<Rightarrow> cell \<Rightarrow> cell \<Rightarrow> row" where
  "enrollment_row year region level sector enrollment infra =
     [(SCHOOL_YEAR, year), (REGION, region), (LEVEL, level), (SECTOR, sector),
      (TOTAL_ENROLLMENT, enrollment), (TOTAL_INFRA, infra)]"

definition sheet_columns :: "string list" where
  "sheet_columns = [SCHOOL_YEAR, REGION, LEVEL, SECTOR, TOTAL_ENROLLMENT, TOTAL_INFRA]"

definition example_df :: table where
  "example_df = \<lparr>columns = sheet_columns, rows =
     [enrollment_row (Str ''2022'') (Str ''NCR'') (Str SHS) (Str ''PUBLIC'') (Num 1200) (Num 10),
      enrollment_row (Str ''2021'') (Str ''NCR'') (Str SHS) (Str ''PUBLIC'') (Num 1000) (Num 10),
      enrollment_row (Str ''2021'') (Str ''NCR'') (Str ''Junior High School'') (Str ''PUBLIC'')
        (Num 500) (Num 5),
      enrollment_row (Str ''2022'') (Str ''Region I'') (Str SHS) (Str ''PRIVATE'') (Num 300) NaN,
      enrollment_row (Str ''2022'') (Str ''Region II'') (Str SHS) (Str ''PUBLIC'') (Num 50) (Num 0)]\<rparr>"

definition example_filtered :: table where
  "example_filtered = \<lparr>columns = sheet_columns, rows =
     [enrollment_row (Str ''2022'') (Str ''NCR'') (Str SHS) (Str ''PUBLIC'') (Num 1200) (Num 10),
      enrollment_row (Str ''2021'') (Str ''NCR'') (Str SHS) (Str ''PUBLIC'') (Num 1000) (Num 10),
      enrollment_row (Str ''2022'') (Str ''Region II'') (Str SHS) (Str ''PUBLIC'') (Num 50) (Num 0)]\<rparr>"

definition example_shs :: table where
  "example_shs = \<lparr>columns = sheet_columns @ [LEARNERS_PER_INFRA], rows =
     [enrollment_row (Str ''2022'') (Str ''NCR'') (Str SHS) (Str ''PUBLIC'') (Num 1200) (Num 10)
        @ [(LEARNERS_PER_INFRA, Num 120)],
      enrollment_row (Str ''2021'') (Str ''NCR'') (Str SHS) (Str ''PUBLIC'') (Num 1000) (Num 10)
        @ [(LEARNERS_PER_INFRA, Num 100)],
      enrollment_row (Str ''2022'') (Str ''Region II'') (Str SHS) (Str ''PUBLIC'') (Num 50) (Num 0)
        @ [(LEARNERS_PER_INFRA, PInf)]]\<rparr>"


definition example_ranking :: table where
  "example_ranking = \<lparr>columns = [REGION, LEARNERS_PER_INFRA], rows =
     [[(REGION, Str ''Region II''), (LEARNERS_PER_INFRA, PInf)],
      [(REGION, Str ''NCR''), (LEARNERS_PER_INFRA, Num 120)]]\<rparr>"

definition example_store :: store where
  "example_store = [example_df]"

definition example_df_reversed :: table where
  "example_df_reversed = example_df\<lparr>rows := rev (rows example_df)\<rparr>"

text \<open>
  Two parsers: one that fails on every source, and one that finds a sheet with the
  header row and no data rows.  A user who uploads nothing and leaves the selectors
  alone.
\<close>

definition no_file :: "nat source \<Rightarrow> error + raw_table" where
  "no_file src = Inl ReadError"

definition header_only :: "nat source \<Rightarrow> error + raw_table" where
  "header_only src = Inr \<lparr>header = map Str sheet_columns, body = []\<rparr>"

definition untouched :: "nat ui" where
  "untouched = \<lparr>uploaded = None, ranking_pick = None, year_a_pick = None, year_b_pick = None\<rparr>"

text \<open>
  A sheet with a region whose only Senior High School row has no learners and no
  infrastructure, with its congestion table and its ranking for 2022.
\<close>

definition empty_region_df :: table where
  "empty_region_df = \<lparr>columns = sheet_columns, rows =
     [enrollment_row (Str ''2022'') (Str ''NCR'') (Str SHS) (Str ''PUBLIC'') (Num 1200) (Num 10),
      enrollment_row (Str ''2022'') (Str ''Region III'') (Str SHS) (Str ''PUBLIC'') (Num 0) (Num 0)]\<rparr>"

definition empty_region_shs :: table where
  "empty_region_shs = \<lparr>columns = sheet_columns @ [LEARNERS_PER_INFRA], rows =
     [enrollment_row (Str ''2022'') (Str ''NCR'') (Str SHS) (Str ''PUBLIC'') (Num 1200) (Num 10)
        @ [(LEARNERS_PER_INFRA, Num 120)],
      enrollment_row (Str ''2022'') (Str ''Region III'') (Str SHS) (Str ''PUBLIC'') (Num 0) (Num 0)
        @ [(LEARNERS_PER_INFRA, NaN)]]\<rparr>"

definition empty_region_ranking :: table where
  "empty_region_ranking = \<lparr>columns = [REGION, LEARNERS_PER_INFRA], rows =
     [[(REGION, Str ''NCR''), (LEARNERS_PER_INFRA, Num 120)],
      [(REGION, Str ''Region III''), (LEARNERS_PER_INFRA, NaN)]]\<rparr>"




definition blank_year_df :: table where
  "blank_year_df = \<lparr>columns = sheet_columns, rows =
     [enrollment_row (Str ''2021'') (Str ''NCR'') (Str SHS) (Str ''PUBLIC'') (Num 1000) (Num 10),
      enrollment_row NaN (Str ''NCR'') (Str SHS) (Str ''PUBLIC'') (Num 200) (Num 5)]\<rparr>"

text \<open>
  A sheet whose rows have a quotient that is not a whole number, a zero divisor and a
  missing enrollment, with its congestion table.
\<close>

definition ratio_df :: table where
  "ratio_df = \<lparr>columns = sheet_columns, rows =
     [enrollment_row (Str ''2022'') (Str ''NCR'') (Str SHS) (Str ''PUBLIC'') (Num 1250) (Num 8),
      enrollment_row (Str ''2022'') (Str ''Region I'') (Str SHS) (Str ''PUBLIC'') (Num 50) (Num 0),
      enrollment_row (Str ''2022'') (Str ''Region II'') (Str SHS) (Str ''PRIVATE'') NaN (Num 7)]\<rparr>"

definition ratio_shs :: table where
  "ratio_shs = \<lparr>columns = sheet_columns @ [LEARNERS_PER_INFRA], rows =
     [enrollment_row (Str ''2022'') (Str ''NCR'') (Str SHS) (Str ''PUBLIC'') (Num 1250) (Num 8)
        @ [(LEARNERS_PER_INFRA, Num (625 / 4))],
      enrollment_row (Str ''2022'') (Str ''Region I'') (Str SHS) (Str ''PUBLIC'') (Num 50) (Num 0)
        @ [(LEARNERS_PER_INFRA, PInf)],
      enrollment_row (Str ''2022'') (Str ''Region II'') (Str SHS) (Str ''PRIVATE'') NaN (Num 7)
        @ [(LEARNERS_PER_INFRA, NaN)]]\<rparr>"

text \<open>
  A sheet with three rows of one region in one year, one of them without an enrollment,
  with its congestion table and its ranking for 2022: the mean of 120 and 100 is 110, the
  missing ratio is skipped.
\<close>

definition mean_df :: table where
  "mean_df = \<lparr>columns = sheet_columns, rows =
     [enrollment_row (Str ''2022'') (Str ''NCR'') (Str SHS) (Str ''PUBLIC'') (Num 1200) (Num 10),
      enrollment_row (Str ''2022'') (Str ''NCR'') (Str SHS) (Str ''PRIVATE'') (Num 1000) (Num 10),
      enrollment_row (Str ''2022'') (Str ''NCR'') (Str SHS) (Str ''PRIVATE'') NaN (Num 5),
      enrollment_row (Str ''2022'') (Str ''Region I'') (Str SHS) (Str ''PUBLIC'') (Num 1250) (Num 10),
      enrollment_row (Str ''2021'') (Str ''NCR'') (Str SHS) (Str ''PUBLIC'') (Num 900) (Num 10)]\<rparr>"

definition mean_shs :: table where
  "mean_shs = \<lparr>columns = sheet_columns @ [LEARNERS_PER_INFRA], rows =
     [enrollment_row (Str ''2022'') (Str ''NCR'') (Str SHS) (Str ''PUBLIC'') (Num 1200) (Num 10)
        @ [(LEARNERS_PER_INFRA, Num 120)],
      enrollment_row (Str ''2022'') (Str ''NCR'') (Str SHS) (Str ''PRIVATE'') (Num 1000) (Num 10)
        @ [(LEARNERS_PER_INFRA, Num 100)],
      enrollment_row (Str ''2022'') (Str ''NCR'') (Str SHS) (Str ''PRIVATE'') NaN (Num 5)
        @ [(LEARNERS_PER_INFRA, NaN)],
      enrollment_row (Str ''2022'') (Str ''Region I'') (Str SHS) (Str ''PUBLIC'') (Num 1250) (Num 10)
        @ [(LEARNERS_PER_INFRA, Num 125)],
      enrollment_row (Str ''2021'') (Str ''NCR'') (Str SHS) (Str ''PUBLIC'') (Num 900) (Num 10)
        @ [(LEARNERS_PER_INFRA, Num 90)]]\<rparr>"

definition mean_ranking :: table where
  "mean_ranking = \<lparr>columns = [REGION, LEARNERS_PER_INFRA], rows =
     [[(REGION, Str ''Region I''), (LEARNERS_PER_INFRA, Num 125)],
      [(REGION, Str ''NCR''), (LEARNERS_PER_INFRA, Num 110)]]\<rparr>"

text \<open>
  A sheet with a text in the Total Enrollment of a Junior High School row and a Senior
  High School row without infrastructure; and a sheet whose Senior High School row
  without infrastructure has no Region, with its congestion table and its ranking for
  2022.
\<close>

definition text_elsewhere_df :: table where
  "text_elsewhere_df = \<lparr>columns = sheet_columns, rows =
     [enrollment_row (Str ''2022'') (Str ''NCR'') (Str ''Junior High School'') (Str ''PUBLIC'')
        (Str ''n/a'') (Num 5),
      enrollment_row (Str ''2022'') (Str ''Region II'') (Str SHS) (Str ''PUBLIC'') (Num 50) (Num 0)]\<rparr>"

definition no_region_df :: table where
  "no_region_df = \<lparr>columns = sheet_columns, rows =
     [enrollment_row (Str ''2022'') (Str ''NCR'') (Str SHS) (Str ''PUBLIC'') (Num 1200) (Num 10),
      enrollment_row (Str ''2022'') NaN (Str SHS) (Str ''PUBLIC'') (Num 50) (Num 0)]\<rparr>"

definition no_region_shs :: table where
  "no_region_shs = \<lparr>columns = sheet_columns @ [LEARNERS_PER_INFRA], rows =
     [enrollment_row (Str ''2022'') (Str ''NCR'') (Str SHS) (Str ''PUBLIC'') (Num 1200) (Num 10)
        @ [(LEARNERS_PER_INFRA, Num 120)],
      enrollment_row (Str ''2022'') NaN (Str SHS) (Str ''PUBLIC'') (Num 50) (Num 0)
        @ [(LEARNERS_PER_INFRA, PInf)]]\<rparr>"

definition no_region_ranking :: table where
  "no_region_ranking = \<lparr>columns = [REGION, LEARNERS_PER_INFRA], rows =
     [[(REGION, Str ''NCR''), (LEARNERS_PER_INFRA, Num 120)]]\<rparr>"

section \<open>Properties\<close>

lemma and_then_Inr_iff:
  "and_then r f = Inr y \<longleftrightarrow> (\<exists>x. r = Inr x \<and> f x = Inr y)"
  by (cases r) (simp_all add: and_then_def)

lemma sequence_map_Inr: "sequence (map Inr xs) = Inr xs"
  by (induction xs) (simp_all add: and_then_def)

lemma sequence_InrD: "sequence rs = Inr xs \<Longrightarrow> rs = map Inr xs"
proof (induction rs arbitrary: xs)
  case Nil
  then show ?case by simp
next
  case (Cons r rs)
  from Cons.prems obtain x ys where "r = Inr x" "sequence rs = Inr ys" "xs = x # ys"
    by (auto simp: and_then_Inr_iff)
  with Cons.IH show ?case by simp
qed

lemma mask_filter:
  "map fst (filter snd (zip xs (map P xs))) = filter P xs"
  by (induction xs) simp_all

lemma shs_mask:
  "mask_and (eq_scalar (map (\<lambda>r. cell_of r LEVEL) rs) (Str SHS))
     (notna (map (\<lambda>r. cell_of r TOTAL_INFRA) rs)) = map is_shs_row rs"
  by (induction rs) (simp_all add: mask_and_def eq_scalar_def notna_def is_shs_row_def)

lemma getitem_Inr_iff:
  "getitem df c = Inr s \<longleftrightarrow> c \<in> set (columns df) \<and> s = map (\<lambda>r. cell_of r c) (rows df)"
  by (auto simp: getitem_def)

lemma map2_map_same: "map2 f (map g xs) (map h xs) = map (\<lambda>x. f (g x) (h x)) xs"
  by (induction xs) simp_all

lemma getitem_mask_simps:
  "columns (getitem_mask df m) = columns df"
  "rows (getitem_mask df (map P (rows df))) = filter P (rows df)"
  by (simp_all add: getitem_mask_def mask_filter)

lemma map2_eq_map_Inr:
  assumes "map2 f a b = map Inr r"
  shows "length r = min (length a) (length b)"
    and "\<And>i. i < length r \<Longrightarrow> f (a ! i) (b ! i) = Inr (r ! i)"
proof -
  from arg_cong[OF assms, of length] show len: "length r = min (length a) (length b)"
    by simp
  fix i assume "i < length r"
  with len arg_cong[OF assms, of "\<lambda>xs. xs ! i"] show "f (a ! i) (b ! i) = Inr (r ! i)"
    by simp
qed

lemma py_truediv_Inr: "py_truediv x y = Inr v \<Longrightarrow> truediv x y = Inr v"
  by (cases x; cases y) (auto split: if_splits)

text \<open>
  Where the division of two series returns, each cell of the result is the quotient of
  the two cells, or \<open>NaN\<close> where one of them is missing.
\<close>

lemma series_truediv_Inr:
  assumes "series_truediv numeric a b = Inr r"
  shows "length r = min (length a) (length b)"
    and "\<And>i. i < length r \<Longrightarrow>
           truediv (a ! i) (b ! i) = Inr (r ! i) \<or> ((a ! i = NaN \<or> b ! i = NaN) \<and> r ! i = NaN)"
proof -
  let ?masked = "\<lambda>x y. if x = NaN \<or> y = NaN then Inr NaN else py_truediv x y"
  from assms consider
      (ieee) "sequence (map2 truediv a b) = Inr r"
    | (python) "sequence (map2 py_truediv a b) = Inr r"
    | (masked) "sequence (map2 ?masked a b) = Inr r"
    by (auto simp: series_truediv_def split: if_splits sum.splits error.splits)
  then have "length r = min (length a) (length b) \<and>
      (\<forall>i < length r. truediv (a ! i) (b ! i) = Inr (r ! i)
          \<or> ((a ! i = NaN \<or> b ! i = NaN) \<and> r ! i = NaN))"
  proof cases
    case ieee
    from map2_eq_map_Inr[OF sequence_InrD[OF ieee]] show ?thesis
      by simp
  next
    case python
    from map2_eq_map_Inr[OF sequence_InrD[OF python]] show ?thesis
      by (simp add: py_truediv_Inr)
  next
    case masked
    note m = map2_eq_map_Inr[OF sequence_InrD[OF masked]]
    show ?thesis
    proof (intro conjI allI impI)
      show "length r = min (length a) (length b)" by (rule m(1))
    next
      fix i assume "i < length r"
      from m(2)[OF this] show "truediv (a ! i) (b ! i) = Inr (r ! i)
          \<or> ((a ! i = NaN \<or> b ! i = NaN) \<and> r ! i = NaN)"
        by (auto simp: py_truediv_Inr split: if_splits)
    qed
  qed
  then show "length r = min (length a) (length b)"
    and "\<And>i. i < length r \<Longrightarrow>
           truediv (a ! i) (b ! i) = Inr (r ! i) \<or> ((a ! i = NaN \<or> b ! i = NaN) \<and> r ! i = NaN)"
    by simp_all
qed

lemma compute_shs_Inr_iff:
  "compute_shs df = Inr shs \<longleftrightarrow>
     LEVEL \<in> set (columns df) \<and> TOTAL_INFRA \<in> set (columns df) \<and>
     TOTAL_ENROLLMENT \<in> set (columns df) \<and>
     (\<exists>ratio.
        series_truediv (numeric_column df TOTAL_ENROLLMENT \<and> numeric_column df TOTAL_INFRA)
          (map (\<lambda>r. cell_of r TOTAL_ENROLLMENT) (filter is_shs_row (rows df)))
          (map (\<lambda>r. cell_of r TOTAL_INFRA) (filter is_shs_row (rows df))) = Inr ratio \<and>
        shs = setitem (df\<lparr>rows := filter is_shs_row (rows df)\<rparr>) LEARNERS_PER_INFRA ratio)"
proof -
  have eq: "getitem_mask df (map is_shs_row (rows df)) = df\<lparr>rows := filter is_shs_row (rows df)\<rparr>"
    by (simp add: getitem_mask_def mask_filter)
  show ?thesis
    unfolding compute_shs_def and_then_Inr_iff getitem_Inr_iff Let_def
    by (auto simp: shs_mask eq)
qed

lemma cell_of_update:
  "cell_of (AList.update c v r) c' = (if c' = c then v else cell_of r c')"
  by (simp add: cell_of_def update_conv')

lemma map2_update_delete:
  "length rs = length vs \<Longrightarrow>
     map (AList.delete c) (map2 (\<lambda>r v. AList.update c v r) rs vs) = map (AList.delete c) rs"
  by (induction rs vs rule: list_induct2) (simp_all add: delete_update_same)

lemma wf_table_delete_id:
  assumes "wf_table df" "c \<notin> set (columns df)" "r \<in> set (rows df)"
  shows "AList.delete c r = r"
proof -
  from assms have "map fst r = columns df"
    by (simp add: wf_table_def list_all_iff)
  with assms(2) have "c \<notin> fst ` set r"
    by (metis set_map)
  then show ?thesis by simp
qed

lemma list_all_map2_update:
  "length rs = length vs \<Longrightarrow>
     list_all P (map2 (\<lambda>r v. AList.update c v r) rs vs) \<longleftrightarrow>
     (\<forall>i < length rs. P (AList.update c (vs ! i) (rs ! i)))"
  by (simp add: list_all_length)

text \<open>What a successful call returns: the kept rows, each with its ratio.\<close>

lemma compute_shs_result:
  assumes "compute_shs df = Inr shs"
  obtains ratio where
    "length ratio = length (filter is_shs_row (rows df))"
    "\<And>i. i < length ratio \<Longrightarrow>
       truediv (cell_of (filter is_shs_row (rows df) ! i) TOTAL_ENROLLMENT)
               (cell_of (filter is_shs_row (rows df) ! i) TOTAL_INFRA) = Inr (ratio ! i)
       \<or> (cell_of (filter is_shs_row (rows df) ! i) TOTAL_ENROLLMENT = NaN \<and> ratio ! i = NaN)"
    "rows shs = map2 (\<lambda>r v. AList.update LEARNERS_PER_INFRA v r) (filter is_shs_row (rows df)) ratio"
    "columns shs = (if LEARNERS_PER_INFRA \<in> set (columns df) then columns df
                    else columns df @ [LEARNERS_PER_INFRA])"
proof -
  let ?kept = "filter is_shs_row (rows df)"
  from assms obtain ratio where
    ratio: "series_truediv (numeric_column df TOTAL_ENROLLMENT \<and> numeric_column df TOTAL_INFRA)
              (map (\<lambda>r. cell_of r TOTAL_ENROLLMENT) ?kept)
              (map (\<lambda>r. cell_of r TOTAL_INFRA) ?kept) = Inr ratio"
    and shs: "shs = setitem (df\<lparr>rows := ?kept\<rparr>) LEARNERS_PER_INFRA ratio"
    unfolding compute_shs_Inr_iff by blast
  note r = series_truediv_Inr[OF ratio]
  from r(1) have len: "length ratio = length ?kept"
    by simp
  have nth: "truediv (cell_of (?kept ! i) TOTAL_ENROLLMENT) (cell_of (?kept ! i) TOTAL_INFRA)
               = Inr (ratio ! i)
             \<or> (cell_of (?kept ! i) TOTAL_ENROLLMENT = NaN \<and> ratio ! i = NaN)"
    if "i < length ratio" for i
  proof -
    from that len have "i < length ?kept"
      by simp
    then have "?kept ! i \<in> set ?kept"
      by (rule nth_mem)
    then have "cell_of (?kept ! i) TOTAL_INFRA \<noteq> NaN"
      by (simp add: is_shs_row_def)
    with r(2)[OF that] that len show ?thesis
      by auto
  qed
  show thesis
    by (rule that[OF len nth]) (simp_all add: shs setitem_def)
qed

subsection \<open>The filter and the ratio\<close>

text \<open>
  Claim C1.  Whenever \<open>compute_shs\<close> returns a table, its rows are, in order, exactly
  the rows of the input whose Level is "Senior High School" and whose Total
  Infrastructure is not missing, each carrying the derived column in addition: apart
  from the column Learners per Infra the two lists of rows are equal, and they are
  equal outright once that column is dropped when the input does not have it.  Every
  output row has Level "Senior High School" and a Total Infrastructure; no output row
  has Level "Junior High School"; the output has at most as many rows as the input.
\<close>

theorem compute_shs_rows:
  assumes "compute_shs df = Inr shs"
  shows "map (AList.delete LEARNERS_PER_INFRA) (rows shs) =
           map (AList.delete LEARNERS_PER_INFRA) (filter is_shs_row (rows df))
       \<and> (wf_table df \<and> LEARNERS_PER_INFRA \<notin> set (columns df) \<longrightarrow>
            map (AList.delete LEARNERS_PER_INFRA) (rows shs) = filter is_shs_row (rows df))
       \<and> list_all (\<lambda>r. cell_of r LEVEL = Str SHS \<and> cell_of r TOTAL_INFRA \<noteq> NaN) (rows shs)
       \<and> list_all (\<lambda>r. cell_of r LEVEL \<noteq> Str ''Junior High School'') (rows shs)
       \<and> length (rows shs) \<le> length (rows df)"
proof -
  let ?kept = "filter is_shs_row (rows df)"
  from assms obtain ratio where
    len: "length ratio = length ?kept"
    and rows_shs: "rows shs = map2 (\<lambda>r v. AList.update LEARNERS_PER_INFRA v r) ?kept ratio"
    by (rule compute_shs_result)
  have a: "map (AList.delete LEARNERS_PER_INFRA) (rows shs) =
           map (AList.delete LEARNERS_PER_INFRA) ?kept"
    unfolding rows_shs using len by (intro map2_update_delete) simp
  have b: "map (AList.delete LEARNERS_PER_INFRA) ?kept = ?kept"
    if "wf_table df" "LEARNERS_PER_INFRA \<notin> set (columns df)"
    by (rule map_idI) (rule wf_table_delete_id[OF that], simp)
  have c: "list_all (\<lambda>r. cell_of r LEVEL = Str SHS \<and> cell_of r TOTAL_INFRA \<noteq> NaN) (rows shs)"
    unfolding rows_shs list_all_map2_update[OF len[symmetric]]
  proof (intro allI impI)
    fix i assume "i < length ?kept"
    then have "?kept ! i \<in> set ?kept"
      by (rule nth_mem)
    then have "is_shs_row (?kept ! i)"
      by simp
    then show "cell_of (AList.update LEARNERS_PER_INFRA (ratio ! i) (?kept ! i)) LEVEL = Str SHS \<and>
               cell_of (AList.update LEARNERS_PER_INFRA (ratio ! i) (?kept ! i)) TOTAL_INFRA \<noteq> NaN"
      by (simp add: cell_of_update is_shs_row_def cell_eq_def)
  qed
  then have d: "list_all (\<lambda>r. cell_of r LEVEL \<noteq> Str ''Junior High School'') (rows shs)"
    by (simp add: list_all_iff)
  have e: "length (rows shs) \<le> length (rows df)"
    by (simp add: rows_shs len)
  from a b c d e show ?thesis by simp
qed

theorem compute_shs_rows_witness:
  "compute_shs example_df = Inr example_shs
   \<and> wf_table example_df \<and> LEARNERS_PER_INFRA \<notin> set (columns example_df)
   \<and> map (AList.delete LEARNERS_PER_INFRA) (rows example_shs) = filter is_shs_row (rows example_df)
   \<and> list_all (\<lambda>r. cell_of r LEVEL = Str SHS \<and> cell_of r TOTAL_INFRA \<noteq> NaN) (rows example_shs)
   \<and> list_all (\<lambda>r. cell_of r LEVEL \<noteq> Str ''Junior High School'') (rows example_shs)
   \<and> length (rows example_shs) \<le> length (rows example_df)"
proof -
  have h: "compute_shs example_df = Inr example_shs"
    by code_simp
  have w: "wf_table example_df \<and> LEARNERS_PER_INFRA \<notin> set (columns example_df)"
    by code_simp
  from compute_shs_rows[OF h] h w show ?thesis
    by blast
qed

text \<open>
  Claim C2.  In every row of the table \<open>compute_shs\<close> returns, Learners per Infra is
  the quotient of that row's Total Enrollment by that row's Total Infrastructure: for an
  enrollment \<open>a\<close> and an infrastructure count \<open>b\<close> other than zero it is the number
  \<open>a / b\<close> (which the code holds rounded to \<^verbatim>\<open>float64\<close>); for the count zero it is
  +infinity, -infinity or \<open>NaN\<close> as \<open>a\<close> is positive, negative or zero; and where the
  enrollment is missing it is missing.
\<close>

theorem learners_per_infra_ratio:
  assumes "compute_shs df = Inr shs"
  shows "list_all (\<lambda>r.
           (\<forall>a b. cell_of r TOTAL_ENROLLMENT = Num a \<and> cell_of r TOTAL_INFRA = Num b \<and> b \<noteq> 0
              \<longrightarrow> cell_of r LEARNERS_PER_INFRA = Num (a / b))
         \<and> (\<forall>a. cell_of r TOTAL_ENROLLMENT = Num a \<and> cell_of r TOTAL_INFRA = Num 0
              \<longrightarrow> cell_of r LEARNERS_PER_INFRA = (if 0 < a then PInf else if a < 0 then NInf else NaN))
         \<and> (cell_of r TOTAL_ENROLLMENT = NaN \<longrightarrow> cell_of r LEARNERS_PER_INFRA = NaN))
         (rows shs)"
proof -
  let ?kept = "filter is_shs_row (rows df)"
  from assms obtain ratio where
    len: "length ratio = length ?kept"
    and nth: "\<And>i. i < length ratio \<Longrightarrow>
       truediv (cell_of (?kept ! i) TOTAL_ENROLLMENT) (cell_of (?kept ! i) TOTAL_INFRA)
         = Inr (ratio ! i)
       \<or> (cell_of (?kept ! i) TOTAL_ENROLLMENT = NaN \<and> ratio ! i = NaN)"
    and rows_shs: "rows shs = map2 (\<lambda>r v. AList.update LEARNERS_PER_INFRA v r) ?kept ratio"
    by (rule compute_shs_result) blast
  have quotient: "(\<forall>a b. x = Num a \<and> y = Num b \<and> b \<noteq> 0 \<longrightarrow> v = Num (a / b))
      \<and> (\<forall>a. x = Num a \<and> y = Num 0 \<longrightarrow> v = (if 0 < a then PInf else if a < 0 then NInf else NaN))
      \<and> (x = NaN \<longrightarrow> v = NaN)"
    if "truediv x y = Inr v \<or> (x = NaN \<and> v = NaN)" for x y v
    using that by (cases x; cases y) auto
  show ?thesis
    unfolding rows_shs list_all_map2_update[OF len[symmetric]]
  proof (intro allI impI)
    fix i assume "i < length ?kept"
    with len have "i < length ratio"
      by simp
    from quotient[OF nth[OF this]]
    show "(\<forall>a b. cell_of (AList.update LEARNERS_PER_INFRA (ratio ! i) (?kept ! i)) TOTAL_ENROLLMENT = Num a
              \<and> cell_of (AList.update LEARNERS_PER_INFRA (ratio ! i) (?kept ! i)) TOTAL_INFRA = Num b
              \<and> b \<noteq> 0
              \<longrightarrow> cell_of (AList.update LEARNERS_PER_INFRA (ratio ! i) (?kept ! i)) LEARNERS_PER_INFRA
                    = Num (a / b))
        \<and> (\<forall>a. cell_of (AList.update LEARNERS_PER_INFRA (ratio ! i) (?kept ! i)) TOTAL_ENROLLMENT = Num a
              \<and> cell_of (AList.update LEARNERS_PER_INFRA (ratio ! i) (?kept ! i)) TOTAL_INFRA = Num 0
              \<longrightarrow> cell_of (AList.update LEARNERS_PER_INFRA (ratio ! i) (?kept ! i)) LEARNERS_PER_INFRA
                    = (if 0 < a then PInf else if a < 0 then NInf else NaN))
        \<and> (cell_of (AList.update LEARNERS_PER_INFRA (ratio ! i) (?kept ! i)) TOTAL_ENROLLMENT = NaN
              \<longrightarrow> cell_of (AList.update LEARNERS_PER_INFRA (ratio ! i) (?kept ! i)) LEARNERS_PER_INFRA
                    = NaN)"
      by (simp add: cell_of_update)
  qed
qed

theorem learners_per_infra_ratio_witness:
  "compute_shs ratio_df = Inr ratio_shs
   \<and> cell_of (rows ratio_shs ! 0) TOTAL_ENROLLMENT = Num 1250
   \<and> cell_of (rows ratio_shs ! 0) TOTAL_INFRA = Num 8
   \<and> cell_of (rows ratio_shs ! 0) LEARNERS_PER_INFRA = Num (1250 / 8)
   \<and> cell_of (rows ratio_shs ! 1) TOTAL_ENROLLMENT = Num 50
   \<and> cell_of (rows ratio_shs ! 1) TOTAL_INFRA = Num 0
   \<and> cell_of (rows ratio_shs ! 1) LEARNERS_PER_INFRA = PInf
   \<and> cell_of (rows ratio_shs ! 2) TOTAL_ENROLLMENT = NaN
   \<and> cell_of (rows ratio_shs ! 2) LEARNERS_PER_INFRA = NaN"
proof -
  let ?quotient = "\<lambda>r.
           (\<forall>a b. cell_of r TOTAL_ENROLLMENT = Num a \<and> cell_of r TOTAL_INFRA = Num b \<and> b \<noteq> 0
              \<longrightarrow> cell_of r LEARNERS_PER_INFRA = Num (a / b))
         \<and> (\<forall>a. cell_of r TOTAL_ENROLLMENT = Num a \<and> cell_of r TOTAL_INFRA = Num 0
              \<longrightarrow> cell_of r LEARNERS_PER_INFRA = (if 0 < a then PInf else if a < 0 then NInf else NaN))
         \<and> (cell_of r TOTAL_ENROLLMENT = NaN \<longrightarrow> cell_of r LEARNERS_PER_INFRA = NaN)"
  have h: "compute_shs ratio_df = Inr ratio_shs"
    by code_simp
  have n: "length (rows ratio_shs) = 3"
    by code_simp
  have r0: "cell_of (rows ratio_shs ! 0) TOTAL_ENROLLMENT = Num 1250"
      "cell_of (rows ratio_shs ! 0) TOTAL_INFRA = Num 8"
    by code_simp+
  have r1: "cell_of (rows ratio_shs ! 1) TOTAL_ENROLLMENT = Num 50"
      "cell_of (rows ratio_shs ! 1) TOTAL_INFRA = Num 0"
    by code_simp+
  have r2: "cell_of (rows ratio_shs ! 2) TOTAL_ENROLLMENT = NaN"
    by code_simp
  from learners_per_infra_ratio[OF h] n
  have q: "?quotient (rows ratio_shs ! 0)" "?quotient (rows ratio_shs ! 1)"
      "?quotient (rows ratio_shs ! 2)"
    unfolding list_all_length by simp_all
  from q(1) r0 have "cell_of (rows ratio_shs ! 0) LEARNERS_PER_INFRA = Num (1250 / 8)"
    by simp
  moreover from q(2) r1 have "cell_of (rows ratio_shs ! 1) LEARNERS_PER_INFRA = PInf"
    by simp
  moreover from q(3) r2 have "cell_of (rows ratio_shs ! 2) LEARNERS_PER_INFRA = NaN"
    by simp
  ultimately show ?thesis
    using h r0 r1 r2 by simp
qed

subsection \<open>The input frame is left alone\<close>

lemma compute_shs_store_eq:
  "compute_shs_store h df =
     (let mid = h @ [getitem_mask (h ! df) (map is_shs_row (rows (h ! df))),
                     getitem_mask (h ! df) (map is_shs_row (rows (h ! df)))] in
      case compute_shs (h ! df) of
        Inl e \<Rightarrow>
          (Inl e, if LEVEL \<in> set (columns (h ! df)) \<and> TOTAL_INFRA \<in> set (columns (h ! df))
                  then mid else h)
      | Inr t \<Rightarrow> (Inr (Suc (length h)), mid[Suc (length h) := t]))"
  by (auto simp: compute_shs_store_def compute_shs_def alloc_def getitem_def and_then_def Let_def
      shs_mask nth_append getitem_mask_simps split: sum.splits)

text \<open>
  Claim C7.  \<open>compute_shs\<close> does not change the frame it is given: after the call every
  frame that existed before, the input among them, is as it was, whether the call
  returns or raises.  What it returns is a frame that did not exist before, holding the
  result of the computation; its columns are the input's columns followed by Learners
  per Infra (which keeps its place if the input already had a column of that name).
\<close>

theorem compute_shs_store_frame:
  assumes "df < length h" and "compute_shs_store h df = (res, h')"
  shows "take (length h) h' = h \<and> h' ! df = h ! df \<and>
         (case res of
            Inl e \<Rightarrow> compute_shs (h ! df) = Inl e
          | Inr shs \<Rightarrow>
              length h \<le> shs \<and> shs < length h' \<and> compute_shs (h ! df) = Inr (h' ! shs) \<and>
              columns (h' ! shs) =
                (if LEARNERS_PER_INFRA \<in> set (columns (h ! df)) then columns (h ! df)
                 else columns (h ! df) @ [LEARNERS_PER_INFRA]) \<and>
              set (columns (h' ! shs)) = set (columns (h ! df)) \<union> {LEARNERS_PER_INFRA})"
proof (cases "compute_shs (h ! df)")
  case (Inl e)
  with assms show ?thesis
    by (auto simp: compute_shs_store_eq Let_def nth_append split: if_splits)
next
  case (Inr t)
  from Inr have cols: "columns t =
      (if LEARNERS_PER_INFRA \<in> set (columns (h ! df)) then columns (h ! df)
       else columns (h ! df) @ [LEARNERS_PER_INFRA])"
    by (rule compute_shs_result)
  from assms Inr have res: "res = Inr (Suc (length h))"
    and h': "h' = (h @ [getitem_mask (h ! df) (map is_shs_row (rows (h ! df))),
                       getitem_mask (h ! df) (map is_shs_row (rows (h ! df)))])[Suc (length h) := t]"
    by (simp_all add: compute_shs_store_eq Let_def)
  have at: "h' ! Suc (length h) = t"
    by (simp add: h')
  have frame: "take (length h) h' = h"
    by (simp add: h')
  have same: "h' ! df = h ! df"
    using assms(1) by (simp add: h' nth_append)
  show ?thesis
    using frame same at cols Inr by (auto simp: res h')
qed

theorem compute_shs_store_frame_witness:
  "(0::nat) < length example_store
   \<and> compute_shs_store example_store 0 = (Inr 2, [example_df, example_filtered, example_shs])
   \<and> take (length example_store) [example_df, example_filtered, example_shs] = example_store
   \<and> [example_df, example_filtered, example_shs] ! 0 = example_store ! 0
   \<and> compute_shs (example_store ! 0) = Inr ([example_df, example_filtered, example_shs] ! 2)
   \<and> columns example_shs = columns example_df @ [LEARNERS_PER_INFRA]"
proof -
  have a: "(0::nat) < length example_store"
    by code_simp
  have b: "compute_shs_store example_store 0 =
             (Inr 2, [example_df, example_filtered, example_shs])"
    by code_simp
  have c: "LEARNERS_PER_INFRA \<notin> set (columns (example_store ! 0))"
    by code_simp
  have d: "example_store ! 0 = example_df"
    by code_simp
  from compute_shs_store_frame[OF a b] a b c d show ?thesis
    by simp
qed

subsection \<open>Loading\<close>

lemma load_data_read_failure:
  "read_excel (source_of u) = Inl e \<Longrightarrow> load_data read_excel (uploaded u) default_path = Inl e"
  by (simp add: load_data_def source_of_def and_then_def split: option.splits)

text \<open>
  Claim C5.  If the parser fails on the source of the run, for whatever reason, then
  \<open>load_data\<close> fails and returns no table, and the run of the script ends stopped with
  the one fixed message: none of the views is computed.
\<close>

theorem load_failure_stops:
  assumes "read_excel (source_of u) = Inl e"
  shows "load_data read_excel (uploaded u) default_path = Inl e
       \<and> script read_excel u = Stopped load_error_message"
  using load_data_read_failure[of read_excel u e] assms by (simp add: script_def)

theorem load_failure_stops_witness:
  "no_file (source_of untouched) = Inl ReadError
   \<and> load_data no_file (uploaded untouched) default_path = Inl ReadError
   \<and> script no_file untouched = Stopped load_error_message"
proof -
  have h: "no_file (source_of untouched) = Inl ReadError"
    by (simp add: no_file_def)
  from load_failure_stops[of no_file untouched ReadError] h show ?thesis
    by simp
qed

lemma get_year_order_no_rows:
  "SCHOOL_YEAR \<in> set (columns df) \<Longrightarrow> rows df = [] \<Longrightarrow> get_year_order df = Inr []"
  by (simp add: get_year_order_def getitem_def and_then_def py_sorted_def)

text \<open>
  Claim C10.  A sheet that is parsed successfully and has the School Year column but
  no rows makes the script raise \<^verbatim>\<open>IndexError\<close> at \<^verbatim>\<open>years[0]\<close>, right after loading;
  so a run that renders its views had a loaded table with at least one row.
\<close>

theorem script_no_years:
  assumes "load_data read_excel (uploaded u) default_path = Inr df"
    and "SCHOOL_YEAR \<in> set (columns df)"
  shows "(rows df = [] \<longrightarrow> script read_excel u = Raised IndexError)
       \<and> ((\<exists>v. script read_excel u = Rendered v) \<longrightarrow> rows df \<noteq> [])"
proof -
  have "script read_excel u = Raised IndexError" if "rows df = []"
    using assms that
    by (simp add: script_def views_of_def get_year_order_no_rows and_then_def py_getitem_def)
  then show ?thesis
    by auto
qed

theorem script_no_years_witness:
  "load_data header_only (uploaded untouched) default_path = Inr \<lparr>columns = sheet_columns, rows = []\<rparr>
   \<and> SCHOOL_YEAR \<in> set (columns \<lparr>columns = sheet_columns, rows = []\<rparr>)
   \<and> rows \<lparr>columns = sheet_columns, rows = []\<rparr> = []
   \<and> script header_only untouched = Raised IndexError"
proof -
  have a: "load_data header_only (uploaded untouched) default_path
             = Inr \<lparr>columns = sheet_columns, rows = []\<rparr>"
    by code_simp
  have b: "SCHOOL_YEAR \<in> set (columns \<lparr>columns = sheet_columns, rows = []\<rparr>)"
    by code_simp
  from script_no_years[OF a b] a b show ?thesis
    by simp
qed

subsection \<open>Grouping\<close>

lemma set_unique [simp]: "set (unique xs) = set xs"
  by (induction xs rule: unique.induct) auto

lemma distinct_unique [simp]: "distinct (unique xs)"
  by (induction xs rule: unique.induct) auto

lemma inj_cell_key: "inj cell_key"
  by (rule injI) (auto simp: cell_key_def split: cell.splits)

lemma set_group_keys:
  "set (group_keys ks df) = {k. NaN \<notin> set k \<and> k \<in> key_of ks ` set (rows df)}"
  by (auto simp: group_keys_def)

lemma distinct_group_keys: "distinct (group_keys ks df)"
  by (simp add: group_keys_def)

lemma groupby_agg_Inr_iff:
  "groupby_agg ks specs df = Inr out \<longleftrightarrow>
     set ks \<subseteq> set (columns df) \<and> (\<lambda>(out, src, f). src) ` set specs \<subseteq> set (columns df) \<and>
     map (group_row ks specs df) (group_keys ks df) = map Inr (rows out) \<and>
     columns out = ks @ map fst specs"
proof -
  have "filter (\<lambda>c. c \<notin> set (columns df)) (ks @ map (\<lambda>(out, src, f). src) specs) = [] \<longleftrightarrow>
        set ks \<subseteq> set (columns df) \<and> (\<lambda>(out, src, f). src) ` set specs \<subseteq> set (columns df)"
    by (auto simp: filter_empty_conv)
  then show ?thesis
    unfolding groupby_agg_def
    by (cases "filter (\<lambda>c. c \<notin> set (columns df)) (ks @ map (\<lambda>(out, src, f). src) specs)")
       (auto simp: and_then_Inr_iff sequence_map_Inr dest: sequence_InrD)
qed

lemma group_row_single:
  "group_row ks [(out, src, f)] df k = Inr r \<longleftrightarrow>
     (\<exists>v. aggregate f (map (\<lambda>r. cell_of r src) (group_rows ks df k)) = Inr v \<and>
          r = zip ks k @ [(out, v)])"
  by (auto simp: group_row_def and_then_Inr_iff)

lemma getitem_mask_eq_scalar:
  "getitem_mask df (eq_scalar (map (\<lambda>r. cell_of r c) (rows df)) y) =
     df\<lparr>rows := filter (\<lambda>r. cell_eq (cell_of r c) y) (rows df)\<rparr>"
proof -
  have "eq_scalar (map (\<lambda>r. cell_of r c) (rows df)) y = map (\<lambda>r. cell_eq (cell_of r c) y) (rows df)"
    by (simp add: eq_scalar_def)
  then show ?thesis
    by (simp add: getitem_mask_def mask_filter)
qed

lemma ranking_Inr_iff:
  "ranking shs y = Inr rk \<longleftrightarrow>
     SCHOOL_YEAR \<in> set (columns shs) \<and>
     (\<exists>means. groupby_agg [REGION] [(LEARNERS_PER_INFRA, LEARNERS_PER_INFRA, AggMean)]
                (shs\<lparr>rows := filter (\<lambda>r. cell_eq (cell_of r SCHOOL_YEAR) y) (rows shs)\<rparr>) = Inr means \<and>
              rk = sort_values_desc LEARNERS_PER_INFRA means)"
  unfolding ranking_def and_then_Inr_iff getitem_Inr_iff Let_def
  by (auto simp: getitem_mask_eq_scalar)

text \<open>
  Claim C8.  For a congestion table (a table with the columns School Year, Region and
  Learners per Infra) and a year that no row of it has, \<open>ranking\<close> returns the empty
  ranking and raises nothing.
\<close>

theorem ranking_no_match:
  assumes "SCHOOL_YEAR \<in> set (columns shs)" "REGION \<in> set (columns shs)"
    "LEARNERS_PER_INFRA \<in> set (columns shs)"
    and "list_all (\<lambda>r. \<not> cell_eq (cell_of r SCHOOL_YEAR) y) (rows shs)"
  shows "ranking shs y = Inr \<lparr>columns = [REGION, LEARNERS_PER_INFRA], rows = []\<rparr>"
proof -
  from assms(4) have "filter (\<lambda>r. cell_eq (cell_of r SCHOOL_YEAR) y) (rows shs) = []"
    by (simp add: filter_empty_conv list_all_iff)
  then have "groupby_agg [REGION] [(LEARNERS_PER_INFRA, LEARNERS_PER_INFRA, AggMean)]
                (shs\<lparr>rows := filter (\<lambda>r. cell_eq (cell_of r SCHOOL_YEAR) y) (rows shs)\<rparr>)
             = Inr \<lparr>columns = [REGION, LEARNERS_PER_INFRA], rows = []\<rparr>"
    using assms(2,3) by (simp add: groupby_agg_Inr_iff group_keys_def)
  then show ?thesis
    using assms(1) by (simp add: ranking_Inr_iff sort_values_desc_def)
qed

theorem ranking_no_match_witness:
  "SCHOOL_YEAR \<in> set (columns example_shs) \<and> REGION \<in> set (columns example_shs)
   \<and> LEARNERS_PER_INFRA \<in> set (columns example_shs)
   \<and> list_all (\<lambda>r. \<not> cell_eq (cell_of r SCHOOL_YEAR) (Str ''2030'')) (rows example_shs)
   \<and> ranking example_shs (Str ''2030'') = Inr \<lparr>columns = [REGION, LEARNERS_PER_INFRA], rows = []\<rparr>"
proof -
  have a: "SCHOOL_YEAR \<in> set (columns example_shs)" by code_simp
  have b: "REGION \<in> set (columns example_shs)" by code_simp
  have c: "LEARNERS_PER_INFRA \<in> set (columns example_shs)" by code_simp
  have d: "list_all (\<lambda>r. \<not> cell_eq (cell_of r SCHOOL_YEAR) (Str ''2030'')) (rows example_shs)"
    by code_simp
  from ranking_no_match[OF a b c d] a b c d show ?thesis
    by simp
qed

lemma cell_add_not_text: "cell_add a b = Inr v \<Longrightarrow> \<not> is_text v"
  by (cases a; cases b) (auto simp: is_text_def)

lemma truediv_not_text: "truediv a b = Inr v \<Longrightarrow> \<not> is_text v"
  by (cases a; cases b) (auto simp: is_text_def split: if_splits)

lemma sum_from_not_text: "sum_from acc xs = Inr v \<Longrightarrow> \<not> is_text acc \<Longrightarrow> \<not> is_text v"
proof (induction xs arbitrary: acc)
  case Nil
  then show ?case by simp
next
  case (Cons x xs)
  from Cons.prems(1) obtain a where a: "cell_add acc x = Inr a" "sum_from a xs = Inr v"
    by (auto simp: and_then_Inr_iff)
  from a(1) have "\<not> is_text a"
    by (rule cell_add_not_text)
  with Cons.IH a(2) show ?case .
qed

lemma aggregate_not_text: "aggregate f s = Inr v \<Longrightarrow> \<not> is_text v"
  by (cases f)
     (auto simp: aggregate_def Let_def and_then_Inr_iff is_text_def
       dest: sum_from_not_text truediv_not_text split: if_splits)

lemma desc_key_le:
  "\<not> is_text a \<Longrightarrow> \<not> is_text b \<Longrightarrow> desc_key a \<le> desc_key b \<Longrightarrow> b = NaN \<or> cell_ge a b"
  by (cases a; cases b) (auto simp: desc_key_def cell_ge_def is_text_def is_number_def)

lemma map_eq_map_Inr_iff:
  "map f ks = map Inr es \<longleftrightarrow> list_all2 (\<lambda>k e. f k = Inr e) ks es"
proof (induction ks arbitrary: es)
  case Nil
  then show ?case by auto
next
  case (Cons k ks)
  then show ?case by (cases es) auto
qed

lemma group_row1:
  assumes "group_row [g] [(c, c, f)] df [x] = Inr e" and "g \<noteq> c"
  shows "cell_of e g = x \<and>
         aggregate f (map (\<lambda>r. cell_of r c) (filter (\<lambda>r. cell_of r g = x) (rows df)))
           = Inr (cell_of e c)"
proof -
  from assms(1) obtain v where
    v: "aggregate f (map (\<lambda>r. cell_of r c) (group_rows [g] df [x])) = Inr v"
    and e: "e = zip [g] [x] @ [(c, v)]"
    unfolding group_row_single by blast
  have "group_rows [g] df [x] = filter (\<lambda>r. cell_of r g = x) (rows df)"
    by (simp add: group_rows_def key_of_def)
  with v e assms(2) show ?thesis
    by (simp add: cell_of_def)
qed

text \<open>Grouping by one column and aggregating one column.\<close>

lemma groupby1:
  assumes "groupby_agg [g] [(c, c, f)] df = Inr out" and "g \<noteq> c"
  shows "columns out = [g, c]"
    and "map (\<lambda>e. [cell_of e g]) (rows out) = group_keys [g] df"
    and "list_all (\<lambda>e. aggregate f (map (\<lambda>r. cell_of r c)
                          (filter (\<lambda>r. cell_of r g = cell_of e g) (rows df)))
                        = Inr (cell_of e c)) (rows out)"
proof -
  from assms(1) have cols: "columns out = [g, c]"
    and all2: "list_all2 (\<lambda>k e. group_row [g] [(c, c, f)] df k = Inr e) (group_keys [g] df) (rows out)"
    by (simp_all add: groupby_agg_Inr_iff map_eq_map_Inr_iff)
  have single: "\<exists>x. k = [x]" if "k \<in> set (group_keys [g] df)" for k
    using that by (auto simp: set_group_keys key_of_def)
  have step: "k = [cell_of e g] \<and>
        aggregate f (map (\<lambda>r. cell_of r c) (filter (\<lambda>r. cell_of r g = cell_of e g) (rows df)))
          = Inr (cell_of e c)"
    if "k \<in> set (group_keys [g] df)" "group_row [g] [(c, c, f)] df k = Inr e" for k e
  proof -
    from single[OF that(1)] obtain x where x: "k = [x]" ..
    from group_row1[OF that(2)[unfolded x] assms(2)] x show ?thesis
      by simp
  qed
  from all2 have all2': "list_all2 (\<lambda>k e. k = [cell_of e g] \<and>
        aggregate f (map (\<lambda>r. cell_of r c) (filter (\<lambda>r. cell_of r g = cell_of e g) (rows df)))
          = Inr (cell_of e c)) (group_keys [g] df) (rows out)"
    by (rule list.rel_mono_strong) (use step in blast)
  show "columns out = [g, c]" by (rule cols)
  from all2' show "map (\<lambda>e. [cell_of e g]) (rows out) = group_keys [g] df"
    by (induction rule: list_all2_induct) simp_all
  from all2' show "list_all (\<lambda>e. aggregate f (map (\<lambda>r. cell_of r c)
                          (filter (\<lambda>r. cell_of r g = cell_of e g) (rows df)))
                        = Inr (cell_of e c)) (rows out)"
    by (induction rule: list_all2_induct) simp_all
qed

text \<open>The sum and the mean of numbers and missing values.\<close>

lemma sum_from_nums:
  "list_all (\<lambda>c. \<exists>q. c = Num q) xs \<Longrightarrow>
     sum_from (Num a) xs = Inr (Num (a + sum_list (map num_of xs)))"
proof (induction xs arbitrary: a)
  case Nil
  then show ?case by simp
next
  case (Cons x xs)
  from Cons.prems obtain q where q: "x = Num q" and rest: "list_all (\<lambda>c. \<exists>q. c = Num q) xs"
    by auto
  from Cons.IH[OF rest, of "a + q"] show ?case
    by (simp add: q and_then_def num_of_def add.assoc)
qed


lemma aggregate_mean_finite:
  assumes "list_all finite_or_missing s"
  shows "aggregate AggMean s =
           Inr (if filter (\<lambda>c. c \<noteq> NaN) s = [] then NaN
                else Num (sum_list (map num_of s) / of_nat (length (filter (\<lambda>c. c \<noteq> NaN) s))))"
proof -
  let ?xs = "filter (\<lambda>c. c \<noteq> NaN) s"
  from assms have a: "list_all (\<lambda>c. \<exists>q. c = Num q) ?xs"
    by (induction s) (auto simp: finite_or_missing_def split: cell.splits)
  have b: "sum_list (map num_of ?xs) = sum_list (map num_of s)"
    by (induction s) (simp_all add: num_of_def)
  from sum_from_nums[OF a, of 0] b
  have "sum_from (Num 0) ?xs = Inr (Num (sum_list (map num_of s)))"
    by simp
  then show ?thesis
    by (simp add: aggregate_def Let_def and_then_def)
qed

subsection \<open>The congestion ranking\<close>

text \<open>
  Claim C3, as amended.  Whenever \<open>ranking\<close> returns, the result has the columns Region
  and Learners per Infra and one row for each region (a Region that is not missing)
  occurring among the rows of the given year.  The row's value is the mean of Learners
  per Infra over those rows of that year and region: where these ratios are numbers or
  missing, it is the sum of the numbers divided by how many they are, the missing ones
  left out, and it is \<open>NaN\<close> where all are missing.  The rows are in descending order of
  the value with the undefined values (\<open>NaN\<close>) last: of any two entries, the later one's
  value is \<open>NaN\<close> or the earlier one's value is greater than or equal to it.
\<close>

theorem ranking_sorted:
  assumes "ranking shs y = Inr rk"
  shows "columns rk = [REGION, LEARNERS_PER_INFRA]
       \<and> distinct (map (\<lambda>e. cell_of e REGION) (rows rk))
       \<and> set (map (\<lambda>e. cell_of e REGION) (rows rk)) =
           {g. g \<noteq> NaN \<and> (\<exists>r\<in>set (rows shs). cell_eq (cell_of r SCHOOL_YEAR) y \<and> cell_of r REGION = g)}
       \<and> list_all (\<lambda>e. aggregate AggMean (map (\<lambda>r. cell_of r LEARNERS_PER_INFRA)
                      (filter (\<lambda>r. cell_eq (cell_of r SCHOOL_YEAR) y \<and> cell_of r REGION = cell_of e REGION)
                         (rows shs))) = Inr (cell_of e LEARNERS_PER_INFRA)) (rows rk)
       \<and> list_all (\<lambda>e. list_all finite_or_missing (group_ratios shs y (cell_of e REGION)) \<longrightarrow>
             cell_of e LEARNERS_PER_INFRA =
               (if filter (\<lambda>c. c \<noteq> NaN) (group_ratios shs y (cell_of e REGION)) = [] then NaN
                else Num (sum_list (map num_of (group_ratios shs y (cell_of e REGION)))
                          / of_nat (length (filter (\<lambda>c. c \<noteq> NaN)
                                              (group_ratios shs y (cell_of e REGION))))))) (rows rk)
       \<and> sorted_wrt (\<lambda>a b. b = NaN \<or> cell_ge a b) (map (\<lambda>e. cell_of e LEARNERS_PER_INFRA) (rows rk))"
proof -
  let ?sel = "filter (\<lambda>r. cell_eq (cell_of r SCHOOL_YEAR) y) (rows shs)"
  let ?key = "\<lambda>e. desc_key (cell_of e LEARNERS_PER_INFRA)"
  from assms obtain means where
    means: "groupby_agg [REGION] [(LEARNERS_PER_INFRA, LEARNERS_PER_INFRA, AggMean)]
              (shs\<lparr>rows := ?sel\<rparr>) = Inr means"
    and rk: "rk = sort_values_desc LEARNERS_PER_INFRA means"
    unfolding ranking_Inr_iff by blast
  have ne: "REGION \<noteq> LEARNERS_PER_INFRA"
    by simp
  note g = groupby1[OF means ne]
  have rows_rk: "rows rk = sort_key ?key (rows means)"
    and cols_rk: "columns rk = [REGION, LEARNERS_PER_INFRA]"
    using g(1) by (simp_all add: rk sort_values_desc_def)
  have set_rk: "set (rows rk) = set (rows means)"
    by (simp add: rows_rk)
  \<comment> \<open>one entry per region\<close>
  from g(2) have "distinct (map (\<lambda>e. [cell_of e REGION]) (rows means))"
    by (simp add: distinct_group_keys)
  then have "distinct (rows means)" "inj_on (\<lambda>e. cell_of e REGION) (set (rows means))"
    by (auto simp: distinct_map inj_on_def)
  then have b1: "distinct (map (\<lambda>e. cell_of e REGION) (rows rk))"
    by (simp add: distinct_map rows_rk)
  from arg_cong[OF g(2), of set]
  have K: "(\<lambda>e. [cell_of e REGION]) ` set (rows means) =
          {k. NaN \<notin> set k \<and> k \<in> key_of [REGION] ` set ?sel}"
    by (simp add: set_group_keys)
  have b2: "set (map (\<lambda>e. cell_of e REGION) (rows rk)) =
      {g. g \<noteq> NaN \<and> (\<exists>r\<in>set (rows shs). cell_eq (cell_of r SCHOOL_YEAR) y \<and> cell_of r REGION = g)}"
  proof (rule set_eqI)
    fix x
    have "x \<in> set (map (\<lambda>e. cell_of e REGION) (rows rk)) \<longleftrightarrow>
          [x] \<in> (\<lambda>e. [cell_of e REGION]) ` set (rows means)"
      unfolding set_map set_rk by (simp add: image_iff)
    also have "\<dots> \<longleftrightarrow> x \<noteq> NaN \<and> [x] \<in> key_of [REGION] ` set ?sel"
      unfolding K by auto
    also have "[x] \<in> key_of [REGION] ` set ?sel \<longleftrightarrow>
          (\<exists>r\<in>set (rows shs). cell_eq (cell_of r SCHOOL_YEAR) y \<and> cell_of r REGION = x)"
      by (simp add: key_of_def image_iff) blast
    finally show "x \<in> set (map (\<lambda>e. cell_of e REGION) (rows rk)) \<longleftrightarrow>
          x \<in> {g. g \<noteq> NaN \<and> (\<exists>r\<in>set (rows shs). cell_eq (cell_of r SCHOOL_YEAR) y \<and> cell_of r REGION = g)}"
      by simp
  qed
  \<comment> \<open>each with the mean of its rows\<close>
  from g(3) have c: "list_all (\<lambda>e. aggregate AggMean (map (\<lambda>r. cell_of r LEARNERS_PER_INFRA)
                      (filter (\<lambda>r. cell_eq (cell_of r SCHOOL_YEAR) y \<and> cell_of r REGION = cell_of e REGION)
                         (rows shs))) = Inr (cell_of e LEARNERS_PER_INFRA)) (rows rk)"
    by (simp add: list_all_iff set_rk conj_commute)
  have c': "list_all (\<lambda>e. list_all finite_or_missing (group_ratios shs y (cell_of e REGION)) \<longrightarrow>
             cell_of e LEARNERS_PER_INFRA =
               (if filter (\<lambda>c. c \<noteq> NaN) (group_ratios shs y (cell_of e REGION)) = [] then NaN
                else Num (sum_list (map num_of (group_ratios shs y (cell_of e REGION)))
                          / of_nat (length (filter (\<lambda>c. c \<noteq> NaN)
                                              (group_ratios shs y (cell_of e REGION))))))) (rows rk)"
  proof (rule list_all_iff[THEN iffD2], intro ballI impI)
    fix e assume e: "e \<in> set (rows rk)"
      and fin: "list_all finite_or_missing (group_ratios shs y (cell_of e REGION))"
    from c e have "aggregate AggMean (group_ratios shs y (cell_of e REGION))
                     = Inr (cell_of e LEARNERS_PER_INFRA)"
      by (simp add: list_all_iff group_ratios_def)
    with aggregate_mean_finite[OF fin]
    show "cell_of e LEARNERS_PER_INFRA =
               (if filter (\<lambda>c. c \<noteq> NaN) (group_ratios shs y (cell_of e REGION)) = [] then NaN
                else Num (sum_list (map num_of (group_ratios shs y (cell_of e REGION)))
                          / of_nat (length (filter (\<lambda>c. c \<noteq> NaN)
                                              (group_ratios shs y (cell_of e REGION))))))"
      by simp
  qed
  \<comment> \<open>in descending order, the undefined means last\<close>
  have "sorted (map ?key (rows rk))"
    by (simp add: rows_rk)
  then have sk: "sorted_wrt (\<lambda>a b. ?key a \<le> ?key b) (rows rk)"
    by (simp add: sorted_map)
  have nt: "\<not> is_text (cell_of e LEARNERS_PER_INFRA)" if "e \<in> set (rows rk)" for e
    using c that unfolding list_all_iff by (blast dest: aggregate_not_text)
  have "sorted_wrt (\<lambda>a b. cell_of b LEARNERS_PER_INFRA = NaN \<or>
          cell_ge (cell_of a LEARNERS_PER_INFRA) (cell_of b LEARNERS_PER_INFRA)) (rows rk)"
  proof (rule sorted_wrt_mono_rel[OF _ sk])
    fix a b
    assume "a \<in> set (rows rk)" "b \<in> set (rows rk)" "?key a \<le> ?key b"
    then show "cell_of b LEARNERS_PER_INFRA = NaN \<or>
          cell_ge (cell_of a LEARNERS_PER_INFRA) (cell_of b LEARNERS_PER_INFRA)"
      by (intro desc_key_le nt)
  qed
  then have d: "sorted_wrt (\<lambda>a b. b = NaN \<or> cell_ge a b)
                  (map (\<lambda>e. cell_of e LEARNERS_PER_INFRA) (rows rk))"
    by (simp add: sorted_wrt_map)
  from cols_rk b1 b2 c c' d show ?thesis
    by blast
qed

theorem ranking_sorted_witness:
  "compute_shs mean_df = Inr mean_shs
   \<and> ranking mean_shs (Str ''2022'') = Inr mean_ranking
   \<and> columns mean_ranking = [REGION, LEARNERS_PER_INFRA]
   \<and> distinct (map (\<lambda>e. cell_of e REGION) (rows mean_ranking))
   \<and> cell_of (rows mean_ranking ! 1) REGION = Str ''NCR''
   \<and> group_ratios mean_shs (Str ''2022'') (Str ''NCR'') = [Num 120, Num 100, NaN]
   \<and> cell_of (rows mean_ranking ! 1) LEARNERS_PER_INFRA = Num ((120 + 100) / 2)
   \<and> sorted_wrt (\<lambda>a b. b = NaN \<or> cell_ge a b)
        (map (\<lambda>e. cell_of e LEARNERS_PER_INFRA) (rows mean_ranking))"
proof -
  have s: "compute_shs mean_df = Inr mean_shs"
    by code_simp
  have h: "ranking mean_shs (Str ''2022'') = Inr mean_ranking"
    by code_simp
  have n: "length (rows mean_ranking) = 2"
    by code_simp
  have g: "cell_of (rows mean_ranking ! 1) REGION = Str ''NCR''"
    by code_simp
  have v: "group_ratios mean_shs (Str ''2022'') (Str ''NCR'') = [Num 120, Num 100, NaN]"
    by code_simp
  note r = ranking_sorted[OF h]
  from r n have "list_all finite_or_missing
        (group_ratios mean_shs (Str ''2022'') (cell_of (rows mean_ranking ! 1) REGION)) \<longrightarrow>
      cell_of (rows mean_ranking ! 1) LEARNERS_PER_INFRA =
        (if filter (\<lambda>c. c \<noteq> NaN)
              (group_ratios mean_shs (Str ''2022'') (cell_of (rows mean_ranking ! 1) REGION)) = []
         then NaN
         else Num (sum_list (map num_of
                      (group_ratios mean_shs (Str ''2022'') (cell_of (rows mean_ranking ! 1) REGION)))
                   / of_nat (length (filter (\<lambda>c. c \<noteq> NaN)
                      (group_ratios mean_shs (Str ''2022'') (cell_of (rows mean_ranking ! 1) REGION))))))"
    unfolding list_all_length by simp
  then have m: "cell_of (rows mean_ranking ! 1) LEARNERS_PER_INFRA = Num ((120 + 100) / 2)"
    unfolding g v by (simp add: finite_or_missing_def num_of_def)
  from r s h g v m show ?thesis
    by blast
qed

text \<open>
  The claim as stated, descending throughout, fails where a region's mean is undefined.
  The region of \<open>empty_region_df\<close> with no learners and no infrastructure has the ratio
  0/0, which is \<open>NaN\<close>; it is ranked last, after the value 120, and 120 >= \<open>NaN\<close> is false.
\<close>

theorem ranking_not_descending_counterexample:
  "compute_shs empty_region_df = Inr empty_region_shs
   \<and> ranking empty_region_shs (Str ''2022'') = Inr empty_region_ranking
   \<and> cell_of (rows empty_region_ranking ! 0) LEARNERS_PER_INFRA = Num 120
   \<and> cell_of (rows empty_region_ranking ! 1) LEARNERS_PER_INFRA = NaN
   \<and> \<not> cell_ge (cell_of (rows empty_region_ranking ! 0) LEARNERS_PER_INFRA)
              (cell_of (rows empty_region_ranking ! 1) LEARNERS_PER_INFRA)"
  by code_simp

subsection \<open>The national totals\<close>

lemma cell_add_total: "\<not> is_text a \<Longrightarrow> \<not> is_text b \<Longrightarrow> \<exists>v. cell_add a b = Inr v"
  by (cases a; cases b) (simp_all add: is_text_def)

lemma sum_from_total:
  "\<not> is_text acc \<Longrightarrow> list_all (\<lambda>c. \<not> is_text c) xs \<Longrightarrow> \<exists>v. sum_from acc xs = Inr v"
proof (induction xs arbitrary: acc)
  case Nil
  then show ?case by simp
next
  case (Cons x xs)
  from Cons.prems have x: "\<not> is_text x" and rest: "list_all (\<lambda>c. \<not> is_text c) xs"
    by simp_all
  from cell_add_total[OF Cons.prems(1) x] obtain a where a: "cell_add acc x = Inr a" ..
  from a have "\<not> is_text a"
    by (rule cell_add_not_text)
  from Cons.IH[OF this rest] a show ?case
    by (simp add: and_then_def)
qed














subsection \<open>The ordered school years\<close>

lemma cell_key_lt:
  assumes "is_text a \<and> is_text b \<or> is_number a \<and> is_number b"
    and "cell_key a \<le> cell_key b" and "a \<noteq> b"
  shows "py_lt a b"
  using assms
  by (cases a; cases b) (auto simp: cell_key_def is_text_def is_number_def)

lemma py_sorted_uniform:
  assumes "list_all is_text xs \<or> list_all is_number xs"
  shows "py_sorted xs = Inr (sort_key cell_key xs)"
proof -
  from assms have "\<not> (list_ex is_text xs \<and> list_ex (\<lambda>x. \<not> is_text x) xs)"
    by (auto simp: list_all_iff list_ex_iff is_text_def is_number_def split: cell.splits)
  moreover from assms have "NaN \<notin> set xs"
    by (auto simp: list_all_iff is_text_def is_number_def)
  ultimately show ?thesis
    by (simp add: py_sorted_def)
qed

lemma sorted_key_unique:
  assumes "inj f" "sorted (map f xs)" "distinct xs" "sorted (map f ys)" "distinct ys"
    and "set xs = set ys"
  shows "xs = ys"
proof -
  from assms have "distinct (map f xs)" "distinct (map f ys)"
    by (auto simp: distinct_map intro: inj_on_subset)
  moreover from assms(6) have "set (map f xs) = set (map f ys)"
    by simp
  ultimately have "map f xs = map f ys"
    using assms(2,4) by (intro sorted_distinct_set_unique)
  with assms(1) show ?thesis
    by (simp add: inj_map_eq_map)
qed

lemma get_year_order_uniform:
  assumes "uniform_years df"
  shows "get_year_order df = Inr (sort_key cell_key (unique (year_values df)))"
proof -
  from assms have col: "SCHOOL_YEAR \<in> set (columns df)"
    and kind: "list_all is_text (unique (year_values df)) \<or> list_all is_number (unique (year_values df))"
    by (auto simp: uniform_years_def list_all_iff)
  from col have "getitem df SCHOOL_YEAR = Inr (year_values df)"
    by (simp add: getitem_def year_values_def)
  with py_sorted_uniform[OF kind] show ?thesis
    by (simp add: get_year_order_def and_then_def)
qed

text \<open>
  Claim C6, as amended.  For every table that has a School Year column whose values are
  all texts or all numbers, none of them missing, \<open>get_year_order\<close> returns a sequence
  that contains each distinct School Year value exactly once, in strictly ascending
  order.  The sequence depends on the set of values only, not on the order in which the
  rows hold them: every such table with the same values yields the same sequence, and
  so does a second call on the same table.
\<close>

theorem get_year_order_sorted:
  assumes "uniform_years df"
  shows "\<exists>ys. get_year_order df = Inr ys
       \<and> distinct ys \<and> set ys = set (year_values df) \<and> sorted_wrt py_lt ys
       \<and> (\<forall>df'. uniform_years df' \<and> set (year_values df') = set (year_values df)
               \<longrightarrow> get_year_order df' = Inr ys)"
proof -
  let ?ys = "sort_key cell_key (unique (year_values df))"
  have res: "get_year_order df = Inr ?ys"
    by (rule get_year_order_uniform[OF assms])
  have dist: "distinct ?ys" and set: "set ?ys = set (year_values df)"
    by simp_all
  have kind: "is_text a \<and> is_text b \<or> is_number a \<and> is_number b"
    if "a \<in> set ?ys" "b \<in> set ?ys" for a b
    using assms that by (auto simp: uniform_years_def list_all_iff)
  have sk: "sorted (map cell_key ?ys)"
    by simp
  have asc: "sorted_wrt py_lt ?ys"
    unfolding sorted_wrt_iff_nth_less
  proof (intro allI impI)
    fix i j assume ij: "i < j" "j < length ?ys"
    then have "cell_key (?ys ! i) \<le> cell_key (?ys ! j)"
      using sk by (simp add: sorted_iff_nth_mono_less)
    moreover from ij dist have "?ys ! i \<noteq> ?ys ! j"
      by (simp add: nth_eq_iff_index_eq)
    moreover from ij have "?ys ! i \<in> set ?ys" "?ys ! j \<in> set ?ys"
      by (simp_all del: set_sort)
    ultimately show "py_lt (?ys ! i) (?ys ! j)"
      by (intro cell_key_lt kind)
  qed
  have same: "get_year_order df' = Inr ?ys"
    if "uniform_years df'" "set (year_values df') = set (year_values df)" for df'
  proof -
    have "sort_key cell_key (unique (year_values df')) = ?ys"
      by (rule sorted_key_unique[OF inj_cell_key]) (simp_all add: that(2))
    with get_year_order_uniform[OF that(1)] show ?thesis
      by simp
  qed
  from res dist set asc same show ?thesis
    by blast
qed

theorem get_year_order_sorted_witness:
  "uniform_years example_df
   \<and> get_year_order example_df = Inr [Str ''2021'', Str ''2022'']
   \<and> distinct [Str ''2021'', Str ''2022'']
   \<and> sorted_wrt py_lt [Str ''2021'', Str ''2022'']
   \<and> year_values example_df = [Str ''2022'', Str ''2021'', Str ''2021'', Str ''2022'', Str ''2022'']
   \<and> uniform_years example_df_reversed
   \<and> get_year_order example_df_reversed = Inr [Str ''2021'', Str ''2022'']"
proof -
  have a: "uniform_years example_df" by code_simp
  have b: "get_year_order example_df = Inr [Str ''2021'', Str ''2022'']" by code_simp
  have c: "year_values example_df
             = [Str ''2022'', Str ''2021'', Str ''2021'', Str ''2022'', Str ''2022'']"
    by code_simp
  have d: "uniform_years example_df_reversed" by code_simp
  have e: "set (year_values example_df_reversed) = set (year_values example_df)"
    by code_simp
  from get_year_order_sorted[OF a] a b c d e show ?thesis
    by auto
qed

text \<open>
  As a claim about every table it fails: where a School Year cell is empty among texts,
  \<^verbatim>\<open>sorted\<close> compares a float with a text and the function raises \<^verbatim>\<open>TypeError\<close> instead
  of returning a sequence.
\<close>

theorem get_year_order_raises_counterexample:
  "wf_table blank_year_df
   \<and> year_values blank_year_df = [Str ''2021'', NaN]
   \<and> get_year_order blank_year_df = Inl TypeError"
  by code_simp

subsection \<open>Division by zero\<close>

lemma truediv_total: "\<not> is_text a \<Longrightarrow> \<not> is_text b \<Longrightarrow> \<exists>v. truediv a b = Inr v"
  by (cases a; cases b) (simp_all add: is_text_def)

text \<open>With the columns in place, the call is the division of the kept rows' cells.\<close>

lemma compute_shs_eq:
  assumes "LEVEL \<in> set (columns df)" "TOTAL_INFRA \<in> set (columns df)"
    "TOTAL_ENROLLMENT \<in> set (columns df)"
  shows "compute_shs df =
     and_then (series_truediv (numeric_column df TOTAL_ENROLLMENT \<and> numeric_column df TOTAL_INFRA)
                 (map (\<lambda>r. cell_of r TOTAL_ENROLLMENT) (filter is_shs_row (rows df)))
                 (map (\<lambda>r. cell_of r TOTAL_INFRA) (filter is_shs_row (rows df))))
       (\<lambda>ratio. Inr (setitem (df\<lparr>rows := filter is_shs_row (rows df)\<rparr>) LEARNERS_PER_INFRA ratio))"
proof -
  have eq: "getitem_mask df (map is_shs_row (rows df)) = df\<lparr>rows := filter is_shs_row (rows df)\<rparr>"
    by (simp add: getitem_mask_def mask_filter)
  have bind: "and_then (Inr x) f = f x" for x :: "cell list" and f :: "cell list \<Rightarrow> error + table"
    by (simp add: and_then_def)
  from assms show ?thesis
    by (simp add: compute_shs_def getitem_def Let_def shs_mask eq bind)
qed

lemma compute_shs_total:
  assumes "LEVEL \<in> set (columns df)" "TOTAL_INFRA \<in> set (columns df)"
    "TOTAL_ENROLLMENT \<in> set (columns df)"
    and "numeric_column df TOTAL_ENROLLMENT" "numeric_column df TOTAL_INFRA"
  shows "\<exists>shs. compute_shs df = Inr shs"
proof -
  let ?kept = "filter is_shs_row (rows df)"
  let ?div = "\<lambda>r. truediv (cell_of r TOTAL_ENROLLMENT) (cell_of r TOTAL_INFRA)"
  have "?div r = Inr (projr (?div r))" if "r \<in> set ?kept" for r
  proof -
    from that assms(4,5) have "\<not> is_text (cell_of r TOTAL_ENROLLMENT)" "\<not> is_text (cell_of r TOTAL_INFRA)"
      by (simp_all add: numeric_column_def list_all_iff)
    from truediv_total[OF this] show ?thesis
      by auto
  qed
  then have m: "map ?div ?kept = map Inr (map (\<lambda>r. projr (?div r)) ?kept)"
    by simp
  have "series_truediv True (map (\<lambda>r. cell_of r TOTAL_ENROLLMENT) ?kept)
               (map (\<lambda>r. cell_of r TOTAL_INFRA) ?kept)
             = sequence (map ?div ?kept)"
    by (simp add: series_truediv_def map2_map_same)
  also have "\<dots> = Inr (map (\<lambda>r. projr (?div r)) ?kept)"
    unfolding m by (rule sequence_map_Inr)
  finally show ?thesis
    using assms by (simp add: compute_shs_eq and_then_def)
qed

text \<open>Python's division of the cells of a column that holds a text.\<close>

lemma sequence_cases:
  "(\<exists>xs. sequence rs = Inr xs) \<or> (\<exists>e. sequence rs = Inl e \<and> Inl e \<in> set rs)"
proof (induction rs)
  case Nil
  then show ?case by simp
next
  case (Cons r rs)
  then show ?case
    by (cases r) (auto simp: and_then_def)
qed

lemma sequence_raises:
  assumes "i < length rs" and "rs ! i = Inl e"
  shows "\<exists>e'. sequence rs = Inl e' \<and> Inl e' \<in> set rs"
proof -
  have "sequence rs \<noteq> Inr xs" for xs
  proof
    assume "sequence rs = Inr xs"
    then have "rs = map Inr xs"
      by (rule sequence_InrD)
    with assms show False
      by auto
  qed
  with sequence_cases[of rs] show ?thesis
    by blast
qed

lemma py_truediv_Inl: "py_truediv x y = Inl e \<Longrightarrow> e = TypeError \<or> e = ZeroDivisionError"
  by (cases x; cases y) (auto split: if_splits)

lemma series_truediv_object_raises:
  assumes "i < length a" "i < length b" and "a ! i = Num q" "b ! i = Num 0"
  shows "series_truediv False a b = Inl ZeroDivisionError \<or> series_truediv False a b = Inl TypeError"
proof -
  let ?masked = "\<lambda>x y. if x = NaN \<or> y = NaN then Inr NaN else py_truediv x y"
  have err: "e = TypeError \<or> e = ZeroDivisionError"
    if "Inl e \<in> set (map2 f a b)" "\<And>x y e. f x y = Inl e \<Longrightarrow> e = TypeError \<or> e = ZeroDivisionError"
    for e and f :: "cell \<Rightarrow> cell \<Rightarrow> error + cell"
  proof -
    from that(1) obtain x y where "f x y = Inl e"
      by (auto simp: in_set_zip)
    then show ?thesis
      by (rule that(2))
  qed
  from assms have "i < length (map2 py_truediv a b)" "map2 py_truediv a b ! i = Inl ZeroDivisionError"
    by simp_all
  from sequence_raises[OF this] obtain e where
    e: "sequence (map2 py_truediv a b) = Inl e" "Inl e \<in> set (map2 py_truediv a b)"
    by blast
  have e_cases: "e = TypeError \<or> e = ZeroDivisionError"
    by (rule err[where f = py_truediv, OF e(2) py_truediv_Inl])
  from assms have "i < length (map2 ?masked a b)" "map2 ?masked a b ! i = Inl ZeroDivisionError"
    by simp_all
  from sequence_raises[OF this] obtain e' where
    e': "sequence (map2 ?masked a b) = Inl e'" "Inl e' \<in> set (map2 ?masked a b)"
    by blast
  have masked_Inl: "e = TypeError \<or> e = ZeroDivisionError" if "?masked x y = Inl e" for x y e
    using that by (auto dest: py_truediv_Inl split: if_splits)
  have e'_cases: "e' = TypeError \<or> e' = ZeroDivisionError"
    by (rule err[where f = ?masked, OF e'(2) masked_Inl])
  from e(1) e'(1) e_cases e'_cases show ?thesis
    by (auto simp: series_truediv_def)
qed

lemma aggregate_mean_total:
  assumes "list_all (\<lambda>c. \<not> is_text c) s"
  shows "\<exists>v. aggregate AggMean s = Inr v"
proof -
  from assms have "list_all (\<lambda>c. \<not> is_text c) (filter (\<lambda>c. c \<noteq> NaN) s)"
    by (simp add: list_all_iff)
  from sum_from_total[OF _ this, of "Num 0"] obtain t
    where t: "sum_from (Num 0) (filter (\<lambda>c. c \<noteq> NaN) s) = Inr t"
    by (auto simp: is_text_def)
  from t have "\<not> is_text t"
    by (rule sum_from_not_text) (simp add: is_text_def)
  from truediv_total[OF this, of "Num (of_nat (length (filter (\<lambda>c. c \<noteq> NaN) s)))"] t
  show ?thesis
    by (auto simp: aggregate_def Let_def and_then_def is_text_def)
qed

lemma groupby1_total:
  assumes "g \<in> set (columns df)" "c \<in> set (columns df)"
    and "\<And>x. \<exists>v. aggregate f (map (\<lambda>r. cell_of r c) (filter (\<lambda>r. cell_of r g = x) (rows df))) = Inr v"
  shows "\<exists>out. groupby_agg [g] [(c, c, f)] df = Inr out"
proof -
  let ?agg = "\<lambda>x. aggregate f (map (\<lambda>r. cell_of r c) (filter (\<lambda>r. cell_of r g = x) (rows df)))"
  let ?row = "\<lambda>k. zip [g] k @ [(c, projr (?agg (hd k)))]"
  have "group_row [g] [(c, c, f)] df k = Inr (?row k)" if "k \<in> set (group_keys [g] df)" for k
  proof -
    from that obtain x where x: "k = [x]"
      by (auto simp: set_group_keys key_of_def)
    from assms(3)[of x] have "?agg x = Inr (projr (?agg x))"
      by auto
    then show ?thesis
      unfolding x group_row_single by (simp add: group_rows_def key_of_def)
  qed
  then have "map (group_row [g] [(c, c, f)] df) (group_keys [g] df)
               = map Inr (map ?row (group_keys [g] df))"
    by simp
  then have "groupby_agg [g] [(c, c, f)] df
               = Inr \<lparr>columns = [g, c], rows = map ?row (group_keys [g] df)\<rparr>"
    using assms(1,2) by (simp add: groupby_agg_Inr_iff)
  then show ?thesis ..
qed

text \<open>A sum that meets an infinity.\<close>

lemma sum_from_NaN: "list_all is_number xs \<Longrightarrow> sum_from NaN xs = Inr NaN"
  by (induction xs) (auto simp: and_then_def is_number_def split: cell.splits)

lemma sum_from_PInf:
  "list_all is_number xs \<Longrightarrow> sum_from PInf xs = Inr (if NInf \<in> set xs then NaN else PInf)"
  by (induction xs) (auto simp: and_then_def is_number_def sum_from_NaN split: cell.splits)

lemma sum_from_NInf:
  "list_all is_number xs \<Longrightarrow> sum_from NInf xs = Inr (if PInf \<in> set xs then NaN else NInf)"
  by (induction xs) (auto simp: and_then_def is_number_def sum_from_NaN split: cell.splits)

lemma sum_from_meets_PInf:
  "list_all is_number xs \<Longrightarrow> PInf \<in> set xs \<Longrightarrow>
     sum_from (Num a) xs = Inr (if NInf \<in> set xs then NaN else PInf)"
proof (induction xs arbitrary: a)
  case Nil
  then show ?case by simp
next
  case (Cons x xs)
  from Cons.prems(1) have xs: "list_all is_number xs" and x: "is_number x"
    by simp_all
  show ?case
  proof (cases x)
    case (Num b)
    with Cons.prems(2) have "PInf \<in> set xs" by simp
    from Cons.IH[OF xs this, of "a + b"] Num show ?thesis
      by (simp add: and_then_def)
  next
    case PInf
    with sum_from_PInf[OF xs] show ?thesis
      by (simp add: and_then_def)
  next
    case NInf
    with Cons.prems(2) have "PInf \<in> set xs" by simp
    with sum_from_NInf[OF xs] NInf show ?thesis
      by (simp add: and_then_def)
  qed (use x in \<open>simp_all add: is_number_def\<close>)
qed

lemma aggregate_mean_meets_PInf:
  assumes "list_all (\<lambda>c. \<not> is_text c) s" and "PInf \<in> set s"
  shows "aggregate AggMean s = Inr (if NInf \<in> set s then NaN else PInf)"
proof -
  let ?xs = "filter (\<lambda>c. c \<noteq> NaN) s"
  from assms(1) have num: "list_all is_number ?xs"
    by (auto simp: list_all_iff is_text_def is_number_def split: cell.splits)
  from assms(2) have inf: "PInf \<in> set ?xs"
    by simp
  from assms(2) have ne: "?xs \<noteq> []"
    by (auto simp: filter_empty_conv)
  have "NInf \<in> set ?xs \<longleftrightarrow> NInf \<in> set s"
    by simp
  with sum_from_meets_PInf[OF num inf, of 0]
  have "sum_from (Num 0) ?xs = Inr (if NInf \<in> set s then NaN else PInf)"
    by simp
  with ne show ?thesis
    by (simp add: aggregate_def Let_def and_then_def)
qed

text \<open>
  Claim C9, as amended.  Take a row of the input with Level "Senior High School", Total
  Infrastructure 0 and a positive Total Enrollment.  If the columns Total Enrollment and
  Total Infrastructure are numeric, \<open>compute_shs\<close> does not raise: the call returns, and
  the row is in the result with Learners per Infra = +infinity.  Nothing filters that
  value out afterwards: if the row has a School Year and a Region, the ranking of its
  year has an entry for its region, the infinity is among the values whose mean the
  entry holds, and the mean is therefore +infinity (or \<open>NaN\<close>, if the group also holds
  -infinity), never a finite number.  If one of the two columns holds a text, in whatever
  row, the call raises instead, \<^verbatim>\<open>ZeroDivisionError\<close> or \<^verbatim>\<open>TypeError\<close>, and returns no
  table.
\<close>

theorem zero_infra_infinite_ratio:
  assumes cols: "LEVEL \<in> set (columns df)" "TOTAL_INFRA \<in> set (columns df)"
      "TOTAL_ENROLLMENT \<in> set (columns df)"
    and r: "r \<in> set (rows df)" "cell_of r LEVEL = Str SHS" "cell_of r TOTAL_INFRA = Num 0"
      "cell_of r TOTAL_ENROLLMENT = Num q" "0 < q"
  shows "(numeric_column df TOTAL_ENROLLMENT \<and> numeric_column df TOTAL_INFRA \<longrightarrow>
           (\<exists>shs. compute_shs df = Inr shs
              \<and> AList.update LEARNERS_PER_INFRA PInf r \<in> set (rows shs)
              \<and> (SCHOOL_YEAR \<in> set (columns df) \<and> REGION \<in> set (columns df)
                   \<and> cell_of r SCHOOL_YEAR \<noteq> NaN \<and> cell_of r REGION \<noteq> NaN \<longrightarrow>
                 (\<exists>rk e. ranking shs (cell_of r SCHOOL_YEAR) = Inr rk
                    \<and> e \<in> set (rows rk) \<and> cell_of e REGION = cell_of r REGION
                    \<and> PInf \<in> set (group_ratios shs (cell_of r SCHOOL_YEAR) (cell_of r REGION))
                    \<and> aggregate AggMean (group_ratios shs (cell_of r SCHOOL_YEAR) (cell_of r REGION))
                        = Inr (cell_of e LEARNERS_PER_INFRA)
                    \<and> cell_of e LEARNERS_PER_INFRA =
                        (if NInf \<in> set (group_ratios shs (cell_of r SCHOOL_YEAR) (cell_of r REGION))
                         then NaN else PInf)))))
       \<and> (\<not> (numeric_column df TOTAL_ENROLLMENT \<and> numeric_column df TOTAL_INFRA) \<longrightarrow>
            compute_shs df = Inl ZeroDivisionError \<or> compute_shs df = Inl TypeError)"
proof (intro conjI impI)
  assume "\<not> (numeric_column df TOTAL_ENROLLMENT \<and> numeric_column df TOTAL_INFRA)"
  then have flag: "(numeric_column df TOTAL_ENROLLMENT \<and> numeric_column df TOTAL_INFRA) = False"
    by simp
  let ?kept = "filter is_shs_row (rows df)"
  from r(1-3) have "r \<in> set ?kept"
    by (simp add: is_shs_row_def cell_eq_def)
  then obtain i where i: "i < length ?kept" "?kept ! i = r"
    unfolding in_set_conv_nth by blast
  from i r(3,4) have
    "i < length (map (\<lambda>r. cell_of r TOTAL_ENROLLMENT) ?kept)"
    "i < length (map (\<lambda>r. cell_of r TOTAL_INFRA) ?kept)"
    "map (\<lambda>r. cell_of r TOTAL_ENROLLMENT) ?kept ! i = Num q"
    "map (\<lambda>r. cell_of r TOTAL_INFRA) ?kept ! i = Num 0"
    by simp_all
  from series_truediv_object_raises[OF this]
  show "compute_shs df = Inl ZeroDivisionError \<or> compute_shs df = Inl TypeError"
    unfolding compute_shs_eq[OF cols] flag by (auto simp: and_then_def)
next
  assume num': "numeric_column df TOTAL_ENROLLMENT \<and> numeric_column df TOTAL_INFRA"
  then have num: "numeric_column df TOTAL_ENROLLMENT" "numeric_column df TOTAL_INFRA"
    by simp_all
  let ?y = "cell_of r SCHOOL_YEAR" and ?g = "cell_of r REGION"
  let ?kept = "filter is_shs_row (rows df)"
  let ?r' = "AList.update LEARNERS_PER_INFRA PInf r"
  from compute_shs_total[OF cols(1-3) num] obtain shs where shs: "compute_shs df = Inr shs" ..
  from shs obtain ratio where
    len: "length ratio = length ?kept"
    and nth: "\<And>i. i < length ratio \<Longrightarrow>
       truediv (cell_of (?kept ! i) TOTAL_ENROLLMENT) (cell_of (?kept ! i) TOTAL_INFRA)
         = Inr (ratio ! i)
       \<or> (cell_of (?kept ! i) TOTAL_ENROLLMENT = NaN \<and> ratio ! i = NaN)"
    and rows_shs: "rows shs = map2 (\<lambda>r v. AList.update LEARNERS_PER_INFRA v r) ?kept ratio"
    and cols_shs: "columns shs = (if LEARNERS_PER_INFRA \<in> set (columns df) then columns df
                    else columns df @ [LEARNERS_PER_INFRA])"
    by (rule compute_shs_result) blast
  \<comment> \<open>the row is kept, with an infinite ratio\<close>
  have row_at: "rows shs ! i = AList.update LEARNERS_PER_INFRA (ratio ! i) (?kept ! i)"
    if "i < length ratio" for i
    using that len by (simp add: rows_shs)
  from r(1-3) have "r \<in> set ?kept"
    by (simp add: is_shs_row_def cell_eq_def)
  then obtain i where i: "i < length ?kept" "?kept ! i = r"
    unfolding in_set_conv_nth by blast
  from nth[of i] i len r(3-5) have "ratio ! i = PInf"
    by simp
  with row_at[of i] i len have "rows shs ! i = ?r'"
    by simp
  moreover from i len have "i < length (rows shs)"
    by (simp add: rows_shs)
  ultimately have r'_in: "?r' \<in> set (rows shs)"
    by (metis nth_mem)
  have r'_cells: "cell_of ?r' SCHOOL_YEAR = ?y" "cell_of ?r' REGION = ?g"
      "cell_of ?r' LEARNERS_PER_INFRA = PInf"
    by (simp_all add: cell_of_update)
  \<comment> \<open>no ratio is a text\<close>
  have nt: "\<not> is_text (cell_of e LEARNERS_PER_INFRA)" if "e \<in> set (rows shs)" for e
  proof -
    from that obtain j where j: "j < length (rows shs)" "rows shs ! j = e"
      unfolding in_set_conv_nth by blast
    from j(1) len have j': "j < length ratio"
      by (simp add: rows_shs)
    from row_at[OF j'] j(2) have "cell_of e LEARNERS_PER_INFRA = ratio ! j"
      by (simp add: cell_of_update)
    with nth[OF j'] show ?thesis
      by (auto simp: is_text_def dest: truediv_not_text)
  qed
  have downstream: "\<exists>rk e. ranking shs ?y = Inr rk
        \<and> e \<in> set (rows rk) \<and> cell_of e REGION = ?g
        \<and> PInf \<in> set (group_ratios shs ?y ?g)
        \<and> aggregate AggMean (group_ratios shs ?y ?g) = Inr (cell_of e LEARNERS_PER_INFRA)
        \<and> cell_of e LEARNERS_PER_INFRA = (if NInf \<in> set (group_ratios shs ?y ?g) then NaN else PInf)"
    if cols45: "SCHOOL_YEAR \<in> set (columns df)" "REGION \<in> set (columns df)"
      and keys: "?y \<noteq> NaN" "?g \<noteq> NaN"
  proof -
    \<comment> \<open>the ranking of the row's year\<close>
    let ?sel = "filter (\<lambda>r. cell_eq (cell_of r SCHOOL_YEAR) ?y) (rows shs)"
    let ?shs_year = "shs\<lparr>rows := ?sel\<rparr>"
    from cols45 have cols': "SCHOOL_YEAR \<in> set (columns shs)" "REGION \<in> set (columns ?shs_year)"
        "LEARNERS_PER_INFRA \<in> set (columns ?shs_year)"
      by (simp_all add: cols_shs)
    have "\<exists>v. aggregate AggMean (map (\<lambda>r. cell_of r LEARNERS_PER_INFRA)
                 (filter (\<lambda>r. cell_of r REGION = x) (rows ?shs_year))) = Inr v" for x
      by (rule aggregate_mean_total) (simp add: list_all_iff nt)
    from groupby1_total[OF cols'(2,3) this] obtain means where
      means: "groupby_agg [REGION] [(LEARNERS_PER_INFRA, LEARNERS_PER_INFRA, AggMean)] ?shs_year
                = Inr means" ..
    let ?rk = "sort_values_desc LEARNERS_PER_INFRA means"
    from cols'(1) means have rk: "ranking shs ?y = Inr ?rk"
      unfolding ranking_Inr_iff by blast
    have ne: "REGION \<noteq> LEARNERS_PER_INFRA"
      by simp
    note g = groupby1[OF means ne]
    \<comment> \<open>the entry of the row's region\<close>
    from r'_in r'_cells keys have "?r' \<in> set ?sel"
      by (simp add: cell_eq_def)
    then have "key_of [REGION] ?r' \<in> key_of [REGION] ` set (rows ?shs_year)"
      by simp
    with keys(2) r'_cells(2) have "[?g] \<in> set (group_keys [REGION] ?shs_year)"
      unfolding set_group_keys by (simp add: key_of_def)
    with g(2) have "[?g] \<in> set (map (\<lambda>e. [cell_of e REGION]) (rows means))"
      by simp
    then obtain e where e: "e \<in> set (rows means)" "cell_of e REGION = ?g"
      by auto
    from e(1) have e_in: "e \<in> set (rows ?rk)"
      by (simp add: sort_values_desc_def)
    have grp: "map (\<lambda>r. cell_of r LEARNERS_PER_INFRA)
                 (filter (\<lambda>r. cell_of r REGION = cell_of e REGION) (rows ?shs_year))
               = group_ratios shs ?y ?g"
      by (simp add: group_ratios_def e(2) conj_commute)
    from g(3) e(1) grp have mean: "aggregate AggMean (group_ratios shs ?y ?g)
                                     = Inr (cell_of e LEARNERS_PER_INFRA)"
      by (auto simp: list_all_iff)
    \<comment> \<open>its mean is not finite\<close>
    from r'_in r'_cells keys(1) have inf: "PInf \<in> set (group_ratios shs ?y ?g)"
      unfolding group_ratios_def set_map set_filter
      by (intro image_eqI[of _ _ ?r']) (simp_all add: cell_eq_def)
    have "list_all (\<lambda>c. \<not> is_text c) (group_ratios shs ?y ?g)"
      by (simp add: group_ratios_def list_all_iff nt)
    from aggregate_mean_meets_PInf[OF this inf] mean
    have val: "cell_of e LEARNERS_PER_INFRA = (if NInf \<in> set (group_ratios shs ?y ?g) then NaN else PInf)"
      by simp
    from rk e_in e(2) inf mean val show ?thesis
      by blast
  qed
  from shs r'_in downstream
  show "\<exists>shs. compute_shs df = Inr shs
          \<and> AList.update LEARNERS_PER_INFRA PInf r \<in> set (rows shs)
          \<and> (SCHOOL_YEAR \<in> set (columns df) \<and> REGION \<in> set (columns df)
               \<and> cell_of r SCHOOL_YEAR \<noteq> NaN \<and> cell_of r REGION \<noteq> NaN \<longrightarrow>
             (\<exists>rk e. ranking shs (cell_of r SCHOOL_YEAR) = Inr rk
                \<and> e \<in> set (rows rk) \<and> cell_of e REGION = cell_of r REGION
                \<and> PInf \<in> set (group_ratios shs (cell_of r SCHOOL_YEAR) (cell_of r REGION))
                \<and> aggregate AggMean (group_ratios shs (cell_of r SCHOOL_YEAR) (cell_of r REGION))
                    = Inr (cell_of e LEARNERS_PER_INFRA)
                \<and> cell_of e LEARNERS_PER_INFRA =
                    (if NInf \<in> set (group_ratios shs (cell_of r SCHOOL_YEAR) (cell_of r REGION))
                     then NaN else PInf)))"
    by blast
qed

theorem zero_infra_infinite_ratio_witness:
  "LEVEL \<in> set (columns example_df) \<and> TOTAL_INFRA \<in> set (columns example_df)
   \<and> TOTAL_ENROLLMENT \<in> set (columns example_df) \<and> SCHOOL_YEAR \<in> set (columns example_df)
   \<and> REGION \<in> set (columns example_df)
   \<and> numeric_column example_df TOTAL_ENROLLMENT \<and> numeric_column example_df TOTAL_INFRA
   \<and> rows example_df ! 4 \<in> set (rows example_df)
   \<and> cell_of (rows example_df ! 4) LEVEL = Str SHS
   \<and> cell_of (rows example_df ! 4) TOTAL_INFRA = Num 0
   \<and> cell_of (rows example_df ! 4) TOTAL_ENROLLMENT = Num 50
   \<and> cell_of (rows example_df ! 4) SCHOOL_YEAR = Str ''2022''
   \<and> cell_of (rows example_df ! 4) REGION = Str ''Region II''
   \<and> compute_shs example_df = Inr example_shs
   \<and> AList.update LEARNERS_PER_INFRA PInf (rows example_df ! 4) \<in> set (rows example_shs)
   \<and> ranking example_shs (Str ''2022'') = Inr example_ranking
   \<and> rows example_ranking ! 0 \<in> set (rows example_ranking)
   \<and> cell_of (rows example_ranking ! 0) REGION = Str ''Region II''
   \<and> cell_of (rows example_ranking ! 0) LEARNERS_PER_INFRA = PInf"
proof -
  have c1: "LEVEL \<in> set (columns example_df)" by code_simp
  have c2: "TOTAL_INFRA \<in> set (columns example_df)" by code_simp
  have c3: "TOTAL_ENROLLMENT \<in> set (columns example_df)" by code_simp
  have c4: "SCHOOL_YEAR \<in> set (columns example_df)" by code_simp
  have c5: "REGION \<in> set (columns example_df)" by code_simp
  have n1: "numeric_column example_df TOTAL_ENROLLMENT" by code_simp
  have n2: "numeric_column example_df TOTAL_INFRA" by code_simp
  have r1: "rows example_df ! 4 \<in> set (rows example_df)" by code_simp
  have r2: "cell_of (rows example_df ! 4) LEVEL = Str SHS" by code_simp
  have r3: "cell_of (rows example_df ! 4) TOTAL_INFRA = Num 0" by code_simp
  have r4: "cell_of (rows example_df ! 4) TOTAL_ENROLLMENT = Num 50" by code_simp
  have r5: "(0::rat) < 50" by simp
  have y: "cell_of (rows example_df ! 4) SCHOOL_YEAR = Str ''2022''" by code_simp
  have g: "cell_of (rows example_df ! 4) REGION = Str ''Region II''" by code_simp
  have s: "compute_shs example_df = Inr example_shs" by code_simp
  have rk: "ranking example_shs (Str ''2022'') = Inr example_ranking" by code_simp
  have e: "rows example_ranking ! 0 \<in> set (rows example_ranking)
           \<and> cell_of (rows example_ranking ! 0) REGION = Str ''Region II''
           \<and> cell_of (rows example_ranking ! 0) LEARNERS_PER_INFRA = PInf"
    by code_simp
  from zero_infra_infinite_ratio[OF c1 c2 c3 r1 r2 r3 r4 r5] n1 n2
  have "AList.update LEARNERS_PER_INFRA PInf (rows example_df ! 4) \<in> set (rows example_shs)"
    using s by auto
  with c1 c2 c3 c4 c5 n1 n2 r1 r2 r3 r4 y g s rk e show ?thesis
    by simp
qed

text \<open>
  The claim as stated, for every such row, fails in both of its parts.  In
  \<open>text_elsewhere_df\<close> the Total Enrollment of a Junior High School row is the text "n/a",
  which makes the column one of Python objects: for the Senior High School row with 50
  learners and no infrastructure the division is Python's 50 / 0, and \<open>compute_shs\<close>
  raises \<^verbatim>\<open>ZeroDivisionError\<close>.  In \<open>no_region_df\<close> both columns are numeric and the row
  with 50 learners and no infrastructure gets the ratio +infinity, but it has no Region:
  grouping by Region leaves it out, and the ranking of its year holds the one finite
  mean 120.
\<close>

theorem zero_infra_raises_counterexample:
  "cell_of (rows text_elsewhere_df ! 1) LEVEL = Str SHS
   \<and> cell_of (rows text_elsewhere_df ! 1) TOTAL_INFRA = Num 0
   \<and> cell_of (rows text_elsewhere_df ! 1) TOTAL_ENROLLMENT = Num 50
   \<and> compute_shs text_elsewhere_df = Inl ZeroDivisionError
   \<and> cell_of (rows no_region_df ! 1) LEVEL = Str SHS
   \<and> cell_of (rows no_region_df ! 1) TOTAL_INFRA = Num 0
   \<and> cell_of (rows no_region_df ! 1) TOTAL_ENROLLMENT = Num 50
   \<and> compute_shs no_region_df = Inr no_region_shs
   \<and> cell_of (rows no_region_shs ! 1) LEARNERS_PER_INFRA = PInf
   \<and> ranking no_region_shs (Str ''2022'') = Inr no_region_ranking
   \<and> map (\<lambda>e. cell_of e LEARNERS_PER_INFRA) (rows no_region_ranking) = [Num 120]"
  by code_simp


end
